theory Spec2Isabelle
  imports Complex_Main "HOL-Library.Log_Nat"
begin

section \<open>Python numbers\<close>

text \<open>
  The pricing code mixes Python's unbounded integers (\<open>int\<close>) with Python floats, which
  are IEEE-754 binary64 values. A float is modelled by the rational number it denotes, or
  one of the three special values. The sign of zero is not kept: no operation used here
  (comparison, multiplication followed by comparison, \<open>round\<close>, \<open>int\<close>) can tell
  \<open>-0.0\<close> from \<open>0.0\<close>.
\<close>

datatype pyfloat = Fin rat | PInf | NInf | NaN

text \<open>The exceptions the code can raise. \<open>ContractError\<close> stands for whatever the web3
  client raises (connection, encoding, revert, malformed answer, missing module).\<close>

datatype py_error = OverflowError | ZeroDivisionError | ValueError | ContractError

text \<open>Round to the nearest integer, ties to the even one: Python's \<open>round(x)\<close> and the
  rounding of every IEEE operation.\<close>

definition rhe :: "rat \<Rightarrow> int" where
  "rhe q = (let f = \<lfloor>q\<rfloor>; r = q - of_int f in
     if r < 1/2 then f else if 1/2 < r then f + 1 else if even f then f else f + 1)"

text \<open>\<open>ilog2 a\<close> is the binary exponent of a positive rational: \<open>2^e \<le> a < 2^(e+1)\<close>.\<close>

definition ilog2 :: "rat \<Rightarrow> int" where
  "ilog2 a = (let (n, d) = quotient_of a; k = bitlen n - bitlen d in
     if 2 powi k \<le> a then k else k - 1)"

text \<open>Rounding of an exact value to binary64 precision: 53 significant bits, and a least
  exponent of \<open>-1074\<close> (subnormal numbers), with an unbounded exponent above.\<close>

definition fexp :: "rat \<Rightarrow> int" where
  "fexp a = max (ilog2 a - 52) (- 1074)"

definition flq :: "rat \<Rightarrow> rat" where
  "flq a = (if a = 0 then 0 else
     let e = fexp \<bar>a\<bar> in
     sgn a * of_int (rhe (\<bar>a\<bar> / 2 powi e)) * 2 powi e)"

text \<open>The result of an IEEE operation whose exact value is \<open>a\<close>: it overflows to an infinity
  when the rounded value does not fit below \<open>2^1024\<close>.\<close>

definition float_overflow :: rat where
  "float_overflow = 2 ^ 1024"

definition fl :: "rat \<Rightarrow> pyfloat" where
  "fl a = (let v = flq a in
     if float_overflow \<le> v then PInf else if v \<le> - float_overflow then NInf else Fin v)"

text \<open>Conversion of an \<open>int\<close> operand in mixed arithmetic (\<open>int * float\<close>): correctly
  rounded, and \<open>OverflowError: int too large to convert to float\<close> beyond the range.\<close>

definition from_int :: "int \<Rightarrow> py_error + pyfloat" where
  "from_int n = (case fl (of_int n) of Fin v \<Rightarrow> Inr (Fin v) | _ \<Rightarrow> Inl OverflowError)"

text \<open>\<open>a / b\<close> on two \<open>int\<close>s: the correctly rounded quotient, \<open>ZeroDivisionError\<close> for a
  zero divisor, \<open>OverflowError: integer division result too large for a float\<close>.\<close>

definition true_div :: "int \<Rightarrow> int \<Rightarrow> py_error + pyfloat" where
  "true_div a b =
     (if b = 0 then Inl ZeroDivisionError
      else case fl (of_int a / of_int b) of Fin v \<Rightarrow> Inr (Fin v) | _ \<Rightarrow> Inl OverflowError)"

text \<open>\<open>x * y\<close> on two floats: never raises, overflows to an infinity.\<close>

fun fmul :: "pyfloat \<Rightarrow> pyfloat \<Rightarrow> pyfloat" where
  "fmul NaN y = NaN"
| "fmul x NaN = NaN"
| "fmul (Fin a) (Fin b) = fl (a * b)"
| "fmul (Fin a) PInf = (if a = 0 then NaN else if 0 < a then PInf else NInf)"
| "fmul (Fin a) NInf = (if a = 0 then NaN else if 0 < a then NInf else PInf)"
| "fmul PInf (Fin b) = (if b = 0 then NaN else if 0 < b then PInf else NInf)"
| "fmul NInf (Fin b) = (if b = 0 then NaN else if 0 < b then NInf else PInf)"
| "fmul PInf PInf = PInf"
| "fmul PInf NInf = NInf"
| "fmul NInf PInf = NInf"
| "fmul NInf NInf = PInf"

text \<open>\<open>x < y\<close> on floats; \<open>x > y\<close> is \<open>fless y x\<close>. Every comparison with NaN is false.\<close>

fun fless :: "pyfloat \<Rightarrow> pyfloat \<Rightarrow> bool" where
  "fless NaN y = False"
| "fless x NaN = False"
| "fless (Fin a) (Fin b) = (a < b)"
| "fless (Fin a) PInf = True"
| "fless (Fin a) NInf = False"
| "fless PInf y = False"
| "fless NInf (Fin b) = True"
| "fless NInf PInf = True"
| "fless NInf NInf = False"

definition fgt :: "pyfloat \<Rightarrow> pyfloat \<Rightarrow> bool" where
  "fgt x y = fless y x"

text \<open>\<open>round(x)\<close> with one argument returns an \<open>int\<close>; \<open>int(x)\<close> truncates towards zero.
  Both raise on an infinity (\<open>OverflowError\<close>) and on NaN (\<open>ValueError\<close>).\<close>

fun py_round :: "pyfloat \<Rightarrow> py_error + int" where
  "py_round (Fin v) = Inr (rhe v)"
| "py_round PInf = Inl OverflowError"
| "py_round NInf = Inl OverflowError"
| "py_round NaN = Inl ValueError"

fun py_int :: "pyfloat \<Rightarrow> py_error + int" where
  "py_int (Fin v) = Inr (if 0 \<le> v then \<lfloor>v\<rfloor> else \<lceil>v\<rceil>)"
| "py_int PInf = Inl OverflowError"
| "py_int NInf = Inl OverflowError"
| "py_int NaN = Inl ValueError"

text \<open>\<open>round(x, 2)\<close>: the exact value of \<open>x\<close> rounded to two decimals (ties to even),
  then the float nearest that decimal; special values round to themselves.\<close>

fun round2 :: "pyfloat \<Rightarrow> pyfloat" where
  "round2 (Fin v) = fl (of_int (rhe (v * 100)) / 100)"
| "round2 x = x"

text \<open>Formatting an \<open>int\<close> in an f-string converts it to decimal, and CPython refuses to
  convert an integer of more than \<open>sys.int_info.default_max_str_digits = 4300\<close> digits
  (\<open>ValueError: Exceeds the limit (4300 digits) for integer string conversion\<close>). Of the
  string only this failure is kept.\<close>

definition int_max_str_digits :: nat where
  "int_max_str_digits = 4300"

definition format_int :: "int \<Rightarrow> py_error + unit" where
  "format_int n = (if 10 ^ int_max_str_digits \<le> \<bar>n\<bar> then Inl ValueError else Inr ())"

section \<open>pricing.py\<close>

text \<open>A float literal denotes the float nearest its decimal value.\<close>

definition CRITICAL_SHORTAGE_THRESHOLD :: pyfloat where
  "CRITICAL_SHORTAGE_THRESHOLD = fl (130 / 100)"

definition SHORTAGE_THRESHOLD :: pyfloat where
  "SHORTAGE_THRESHOLD = fl (110 / 100)"

definition SURPLUS_THRESHOLD :: pyfloat where
  "SURPLUS_THRESHOLD = fl (80 / 100)"

definition CRITICAL_SHORTAGE_MULTIPLIER :: pyfloat where
  "CRITICAL_SHORTAGE_MULTIPLIER = fl (115 / 100)"

definition SHORTAGE_MULTIPLIER :: pyfloat where
  "SHORTAGE_MULTIPLIER = fl (108 / 100)"

definition NORMAL_MULTIPLIER :: pyfloat where
  "NORMAL_MULTIPLIER = fl 1"

definition SURPLUS_MULTIPLIER :: pyfloat where
  "SURPLUS_MULTIPLIER = fl (90 / 100)"

definition MAX_PRICE_INCREASE :: pyfloat where
  "MAX_PRICE_INCREASE = fl (150 / 100)"

definition MAX_PRICE_DECREASE :: pyfloat where
  "MAX_PRICE_DECREASE = fl (70 / 100)"

text \<open>The dictionary returned by \<open>calculate_price\<close>. Of its \<open>'calculations'\<close> entry the four
  numbers are kept. The text of the two formula strings, which print floats in decimal, is
  left out; building them formats the integers \<open>demand\<close>, \<open>supply\<close>, \<open>base_price\<close> and
  \<open>int(calculated_price)\<close>, in this order, and that can raise, which the model keeps.\<close>

record calculations =
  calc_base_price :: int
  calc_supply :: int
  calc_demand :: int
  calc_season_factor :: pyfloat

record price_result =
  suggested_price :: int
  ratio :: "pyfloat option"
  multiplier :: pyfloat
  reason :: string
  is_capped :: bool
  calculations :: calculations

text \<open>The \<open>if/elif/else\<close> chain on the ratio, which sets \<open>multiplier\<close> and \<open>tier_reason\<close>.\<close>

definition price_tier :: "pyfloat \<Rightarrow> pyfloat \<times> string" where
  "price_tier r =
     (if fgt r CRITICAL_SHORTAGE_THRESHOLD then
        (CRITICAL_SHORTAGE_MULTIPLIER, ''Critical shortage (ratio > 1.30)'')
      else if fgt r SHORTAGE_THRESHOLD then
        (SHORTAGE_MULTIPLIER, ''Shortage detected (ratio > 1.10)'')
      else if fless r SURPLUS_THRESHOLD then
        (SURPLUS_MULTIPLIER, ''Surplus available (ratio < 0.80)'')
      else
        (NORMAL_MULTIPLIER, ''Balanced supply-demand (0.80-1.10)''))"

text \<open>The clamp to the hard limits: the clamped price, the note appended to the reason,
  and \<open>is_capped\<close>.\<close>

definition apply_limits :: "pyfloat \<Rightarrow> pyfloat \<Rightarrow> pyfloat \<Rightarrow> pyfloat \<times> string \<times> bool" where
  "apply_limits calculated_price max_allowed min_allowed =
     (if fgt calculated_price max_allowed then (max_allowed, '' [CAPPED at +50%]'', True)
      else if fless calculated_price min_allowed then (min_allowed, '' [FLOORED at -30%]'', True)
      else (calculated_price, [], False))"

definition calculate_price :: "int \<Rightarrow> int \<Rightarrow> int \<Rightarrow> pyfloat \<Rightarrow> py_error + price_result" where
  "calculate_price supply demand base_price season_factor =
     (if supply \<le> 0 then
        Inr \<lparr>suggested_price = base_price, ratio = None, multiplier = fl 1,
             reason = ''No supply available - using base price'', is_capped = False,
             calculations = \<lparr>calc_base_price = base_price, calc_supply = supply,
               calc_demand = demand, calc_season_factor = season_factor\<rparr>\<rparr>
      else case true_div demand supply of Inl e \<Rightarrow> Inl e | Inr r \<Rightarrow>
        (case price_tier r of (m, tier_reason) \<Rightarrow>
        (case from_int base_price of Inl e \<Rightarrow> Inl e | Inr b \<Rightarrow>
        (case apply_limits (fmul (fmul b m) season_factor)
                (fmul b MAX_PRICE_INCREASE) (fmul b MAX_PRICE_DECREASE)
         of (clamped, note, capped) \<Rightarrow>
        (case py_round clamped of Inl e \<Rightarrow> Inl e | Inr final_price \<Rightarrow>
        (case format_int demand of Inl e \<Rightarrow> Inl e | Inr u1 \<Rightarrow>
        (case format_int supply of Inl e \<Rightarrow> Inl e | Inr u2 \<Rightarrow>
        (case format_int base_price of Inl e \<Rightarrow> Inl e | Inr u3 \<Rightarrow>
        (case py_int clamped of Inl e \<Rightarrow> Inl e | Inr shown \<Rightarrow>
        (case format_int shown of Inl e \<Rightarrow> Inl e | Inr u4 \<Rightarrow>
           Inr \<lparr>suggested_price = final_price, ratio = Some (round2 r),
                multiplier = round2 m, reason = tier_reason @ note, is_capped = capped,
                calculations = \<lparr>calc_base_price = base_price, calc_supply = supply,
                  calc_demand = demand, calc_season_factor = season_factor\<rparr>\<rparr>))))))))))"

text \<open>The dictionary returned by \<open>get_supply_demand_ratio\<close>; the \<open>'supply'\<close> and \<open>'demand'\<close>
  keys are absent from the \<open>'error'\<close> answer.\<close>

record ratio_result =
  rr_ratio :: "pyfloat option"
  tier :: string
  tier_description :: string
  rr_supply :: "int option"
  rr_demand :: "int option"

definition ratio_tier :: "pyfloat \<Rightarrow> string \<times> string" where
  "ratio_tier r =
     (if fgt r CRITICAL_SHORTAGE_THRESHOLD then
        (''critical_shortage'', ''Critical shortage - price +15%'')
      else if fgt r SHORTAGE_THRESHOLD then
        (''shortage'', ''Shortage - price +8%'')
      else if fless r SURPLUS_THRESHOLD then
        (''surplus'', ''Surplus - price -10%'')
      else
        (''balanced'', ''Balanced supply-demand - price baseline''))"

definition get_supply_demand_ratio :: "int \<Rightarrow> int \<Rightarrow> py_error + ratio_result" where
  "get_supply_demand_ratio supply demand =
     (if supply \<le> 0 then
        Inr \<lparr>rr_ratio = None, tier = ''error'',
             tier_description = ''No supply to calculate ratio'',
             rr_supply = None, rr_demand = None\<rparr>
      else case true_div demand supply of Inl e \<Rightarrow> Inl e | Inr r \<Rightarrow>
        (case ratio_tier r of (t, tier_desc) \<Rightarrow>
           Inr \<lparr>rr_ratio = Some (round2 r), tier = t, tier_description = tier_desc,
                rr_supply = Some supply, rr_demand = Some demand\<rparr>))"

definition validate_inputs :: "int \<Rightarrow> int \<Rightarrow> int \<Rightarrow> bool \<times> string" where
  "validate_inputs supply demand base_price =
     (if base_price \<le> 0 then (False, ''Base price must be positive'')
      else if supply < 0 then (False, ''Supply cannot be negative'')
      else if demand < 0 then (False, ''Demand cannot be negative'')
      else if supply = 0 \<and> 0 < demand then (False, ''Cannot have demand with zero supply'')
      else (True, []))"

section \<open>blockchain.py\<close>

datatype BlockchainMode = MOCK | REAL

text \<open>The fields of a \<open>ContractIntegration\<close> object.\<close>

record ContractIntegration =
  mode :: BlockchainMode
  pricing_contract_address :: string
  region_contract_address :: string
  pricing_stylus_address :: string
  regions_stylus_address :: string
  rpc_url :: string
  use_stylus_pricing :: bool
  use_stylus_regions :: bool
  contracts_available :: bool

text \<open>\<open>os.getenv(name, default)\<close> over the process environment, a map from names to values.\<close>

definition getenv :: "(string \<rightharpoonup> string) \<Rightarrow> string \<Rightarrow> string \<Rightarrow> string" where
  "getenv env name dflt = (case env name of None \<Rightarrow> dflt | Some v \<Rightarrow> v)"

text \<open>\<open>__init__\<close>: a string is true when it is not empty; a request for REAL mode without
  deployed contracts becomes MOCK mode.\<close>

definition ContractIntegration_init :: "(string \<rightharpoonup> string) \<Rightarrow> BlockchainMode \<Rightarrow> ContractIntegration" where
  "ContractIntegration_init env m =
     (let pca = getenv env ''ETHANI_PRICING_ADDRESS'' ''0xc92fd01c122821Eb2C911d16468B20b07E25abC0'';
          rca = getenv env ''ETHANI_REGION_ADDRESS'' ''0x5836cdDE4D05B0aBDB97AE556a0b9E3971a16143'';
          psa = getenv env ''ETHANI_PRICING_STYLUS_ADDRESS'' [];
          rsa = getenv env ''ETHANI_REGIONS_STYLUS_ADDRESS'' [];
          url = getenv env ''BLOCKCHAIN_RPC_URL'' ''https://sepolia-rollup.arbitrum.io/rpc'';
          avail = ((pca \<noteq> [] \<or> psa \<noteq> []) \<and> (rca \<noteq> [] \<or> rsa \<noteq> []))
      in \<lparr>mode = (if m = REAL \<and> \<not> avail then MOCK else m),
          pricing_contract_address = pca, region_contract_address = rca,
          pricing_stylus_address = psa, regions_stylus_address = rsa, rpc_url = url,
          use_stylus_pricing = (psa \<noteq> []), use_stylus_regions = (rsa \<noteq> []),
          contracts_available = avail\<rparr>)"

text \<open>The dictionaries returned by the price sources. The three shapes of the source share
  \<open>'final_price'\<close>, \<open>'reason'\<close> and \<open>'source'\<close>; a key that a shape does not have is
  \<open>None\<close>. From the mock's \<open>'audit'\<close> entry the ratio and the multiplier are kept, from the
  fallback's the \<open>'fallback_reason'\<close>; the constant \<open>'ai_used'\<close> and \<open>'execution_type'\<close> keys
  and the copies of the inputs are left out.\<close>

record contract_result =
  final_price :: int
  cr_reason :: string
  source :: string
  cr_is_capped :: "bool option"
  contract_address :: "string option"
  contract_type :: "string option"
  audit_ratio :: "pyfloat option"
  audit_multiplier :: "pyfloat option"
  fallback_reason :: "string option"

text \<open>What one remote call does, seen from the caller: it raises (any exception of the web3
  client, or an answer that does not unpack into three values), it reports that the node
  is not connected, or it returns \<open>(finalPrice, reason, tier)\<close>. The network is an input of
  the model: one outcome for the Stylus contract and one for the Solidity contract.\<close>

datatype rpc_outcome = Raises | NotConnected | Returns int string string

record chain =
  stylus_rpc :: rpc_outcome
  solidity_rpc :: rpc_outcome

definition fallback_to_base_price :: "int \<Rightarrow> string \<Rightarrow> contract_result" where
  "fallback_to_base_price base_price why =
     \<lparr>final_price = base_price, cr_reason = why, source = ''fallback'',
      cr_is_capped = Some False, contract_address = None, contract_type = None,
      audit_ratio = None, audit_multiplier = None, fallback_reason = Some why\<rparr>"

text \<open>\<open>_call_pricing_contract\<close>: the inner \<open>case\<close> is the body of the \<open>try\<close>, the outer one
  the \<open>except Exception\<close> handler.\<close>

definition call_pricing_contract ::
  "ContractIntegration \<Rightarrow> chain \<Rightarrow> int \<Rightarrow> int \<Rightarrow> int \<Rightarrow> py_error + contract_result" where
  "call_pricing_contract self w supply demand base_price =
     (case (case solidity_rpc w of
              Raises \<Rightarrow> Inl ContractError
            | NotConnected \<Rightarrow> Inr (fallback_to_base_price base_price ''BLOCKCHAIN_UNAVAILABLE'')
            | Returns p reason_str tr \<Rightarrow>
                Inr \<lparr>final_price = p, cr_reason = reason_str @ '' ['' @ tr @ '']'',
                     source = ''smart_contract_solidity'', cr_is_capped = None,
                     contract_address = Some (pricing_contract_address self),
                     contract_type = Some ''solidity'',
                     audit_ratio = None, audit_multiplier = None, fallback_reason = None\<rparr>)
      of Inl e \<Rightarrow> Inr (fallback_to_base_price base_price ''CONTRACT_CALL_FAILED'')
       | Inr res \<Rightarrow> Inr res)"

text \<open>\<open>_call_stylus_pricing_contract\<close>: its handler tries the Solidity contract when that
  contract has an address.\<close>

definition call_stylus_pricing_contract ::
  "ContractIntegration \<Rightarrow> chain \<Rightarrow> int \<Rightarrow> int \<Rightarrow> int \<Rightarrow> py_error + contract_result" where
  "call_stylus_pricing_contract self w supply demand base_price =
     (case (case stylus_rpc w of
              Raises \<Rightarrow> Inl ContractError
            | NotConnected \<Rightarrow> Inr (fallback_to_base_price base_price ''BLOCKCHAIN_UNAVAILABLE'')
            | Returns p reason_str tr \<Rightarrow>
                Inr \<lparr>final_price = p, cr_reason = reason_str @ '' ['' @ tr @ '']'',
                     source = ''smart_contract_stylus'', cr_is_capped = None,
                     contract_address = Some (pricing_stylus_address self),
                     contract_type = Some ''stylus_wasm'',
                     audit_ratio = None, audit_multiplier = None, fallback_reason = None\<rparr>)
      of Inl e \<Rightarrow>
           (if pricing_contract_address self \<noteq> []
            then call_pricing_contract self w supply demand base_price
            else Inr (fallback_to_base_price base_price ''STYLUS_CALL_FAILED''))
       | Inr res \<Rightarrow> Inr res)"

text \<open>\<open>_mock_pricing_calculation\<close>: the local computation. It truncates with \<open>int(...)\<close>
  where \<open>calculate_price\<close> rounds, and it takes no season factor.\<close>

definition mock_tier :: "pyfloat \<Rightarrow> pyfloat \<times> string" where
  "mock_tier r =
     (if fgt r (fl (130 / 100)) then (fl (115 / 100), ''Critical shortage (ratio > 1.30)'')
      else if fgt r (fl (110 / 100)) then (fl (108 / 100), ''Shortage (ratio > 1.10)'')
      else if fless r (fl (80 / 100)) then (fl (90 / 100), ''Surplus (ratio < 0.80)'')
      else (fl 1, ''Balanced (0.80-1.10)''))"

definition mock_limits :: "int \<Rightarrow> int \<Rightarrow> int \<Rightarrow> int \<times> string \<times> bool" where
  "mock_limits calculated_price max_allowed min_allowed =
     (if calculated_price > max_allowed then (max_allowed, '' [CAPPED +50%]'', True)
      else if calculated_price < min_allowed then (min_allowed, '' [FLOORED -30%]'', True)
      else (calculated_price, [], False))"

definition mock_pricing_calculation ::
  "ContractIntegration \<Rightarrow> int \<Rightarrow> int \<Rightarrow> int \<Rightarrow> py_error + contract_result" where
  "mock_pricing_calculation self supply demand base_price =
     (if supply \<le> 0 then Inr (fallback_to_base_price base_price ''INSUFFICIENT_DATA'')
      else if demand < 0 then Inr (fallback_to_base_price base_price ''INSUFFICIENT_DATA'')
      else case true_div demand supply of Inl e \<Rightarrow> Inl e | Inr r \<Rightarrow>
        (case mock_tier r of (m, tier_reason) \<Rightarrow>
        (case from_int base_price of Inl e \<Rightarrow> Inl e | Inr b \<Rightarrow>
        (case py_int (fmul b m) of Inl e \<Rightarrow> Inl e | Inr calculated_price \<Rightarrow>
        (case py_int (fmul b (fl (150 / 100))) of Inl e \<Rightarrow> Inl e | Inr max_allowed \<Rightarrow>
        (case py_int (fmul b (fl (70 / 100))) of Inl e \<Rightarrow> Inl e | Inr min_allowed \<Rightarrow>
        (case mock_limits calculated_price max_allowed min_allowed of (price, note, capped) \<Rightarrow>
           Inr \<lparr>final_price = price, cr_reason = tier_reason @ note,
                source = (if mode self = MOCK then ''mock_pricing'' else ''smart_contract''),
                cr_is_capped = Some capped, contract_address = None, contract_type = None,
                audit_ratio = Some (round2 r), audit_multiplier = Some m,
                fallback_reason = None\<rparr>)))))))"

text \<open>\<open>ContractIntegration.calculate_price\<close>, the resolver. The \<open>region\<close> argument is only
  passed on and never read, so it is left out.\<close>

definition ContractIntegration_calculate_price ::
  "ContractIntegration \<Rightarrow> chain \<Rightarrow> int \<Rightarrow> int \<Rightarrow> int \<Rightarrow> py_error + contract_result" where
  "ContractIntegration_calculate_price self w supply demand base_price =
     (if mode self = REAL \<and> contracts_available self then
        (case (if use_stylus_pricing self
               then call_stylus_pricing_contract self w supply demand base_price
               else call_pricing_contract self w supply demand base_price)
         of Inl e \<Rightarrow> Inr (fallback_to_base_price base_price ''CONTRACT_UNAVAILABLE'')
          | Inr res \<Rightarrow> Inr res)
      else mock_pricing_calculation self supply demand base_price)"

section \<open>Rounding to binary64\<close>

lemma rhe_of_int: "rhe (of_int k) = k"
  by (simp add: rhe_def)

lemma rhe_lower: "q - 1/2 \<le> of_int (rhe q)"
  unfolding rhe_def Let_def by (auto; linarith)

lemma rhe_upper: "of_int (rhe q) \<le> q + 1/2"
  unfolding rhe_def Let_def by (auto; linarith)

lemma rhe_floor: "\<lfloor>q\<rfloor> \<le> rhe q"
  unfolding rhe_def Let_def by auto

lemma rhe_floor1: "rhe q \<le> \<lfloor>q\<rfloor> + 1"
  unfolding rhe_def Let_def by auto

lemma rhe_mono: assumes "x \<le> y" shows "rhe x \<le> rhe y"
proof (cases "\<lfloor>x\<rfloor> = \<lfloor>y\<rfloor>")
  case True
  then show ?thesis using assms unfolding rhe_def Let_def by auto
next
  case False
  then have "\<lfloor>x\<rfloor> + 1 \<le> \<lfloor>y\<rfloor>" using assms floor_mono[of x y] by linarith
  then show ?thesis using rhe_floor1[of x] rhe_floor[of y] by linarith
qed

lemma powi_pos: "0 < (2::rat) powi e"
  by (simp add: zero_less_power_int)

lemma powi_mono: "a \<le> b \<Longrightarrow> (2::rat) powi a \<le> 2 powi b"
  by (simp add: power_int_increasing)

lemma powi_strict: "a < b \<Longrightarrow> (2::rat) powi a < 2 powi b"
  by (simp add: power_int_strict_increasing)

lemma powi_add: "(2::rat) powi (a + b) = 2 powi a * 2 powi b"
  by (simp add: power_int_add)

lemma bitlen_powi:
  assumes "0 < n"
  shows "2 powi (bitlen n - 1) \<le> (of_int n :: rat)" and "(of_int n :: rat) < 2 powi (bitlen n)"
proof -
  have b1: "1 \<le> bitlen n" using assms bitlen_eq_zero_iff[of n] bitlen_nonneg[of n] by linarith
  have "(2::int) ^ nat (bitlen n - 1) \<le> n" using bitlen_bounds[OF assms] by simp
  then have "(of_int ((2::int) ^ nat (bitlen n - 1)) :: rat) \<le> of_int n" by (simp only: of_int_le_iff)
  then show "2 powi (bitlen n - 1) \<le> (of_int n :: rat)" using b1 by (simp add: power_int_def)
  have "n < (2::int) ^ nat (bitlen n)" using bitlen_bounds[OF assms] by simp
  then have "(of_int n :: rat) < of_int ((2::int) ^ nat (bitlen n))" by (simp only: of_int_less_iff)
  then show "(of_int n :: rat) < 2 powi (bitlen n)" using b1 by (simp add: power_int_def)
qed

lemma ilog2_bounds:
  assumes "0 < a"
  shows "2 powi (ilog2 a) \<le> a" and "a < 2 powi (ilog2 a + 1)"
proof -
  obtain n d where nd: "quotient_of a = (n, d)" by (cases "quotient_of a")
  have dpos: "0 < d" using quotient_of_denom_pos[OF nd] .
  have a: "a = of_int n / of_int d" using quotient_of_div[OF nd] .
  have npos: "0 < n" using assms dpos a by (simp add: zero_less_divide_iff)
  define k where "k = bitlen n - bitlen d"
  define N where "N = (of_int n :: rat)"
  define D where "D = (of_int d :: rat)"
  have Dpos: "0 < D" and Npos: "0 < N" using dpos npos by (simp_all add: D_def N_def)
  have bn: "2 powi (bitlen n - 1) \<le> N" "N < 2 powi (bitlen n)"
    using bitlen_powi[OF npos] by (simp_all add: N_def)
  have bd: "2 powi (bitlen d - 1) \<le> D" "D < 2 powi (bitlen d)"
    using bitlen_powi[OF dpos] by (simp_all add: D_def)
  have e1: "(2::rat) powi (bitlen n) = 2 powi (k + 1) * 2 powi (bitlen d - 1)"
    unfolding k_def powi_add[symmetric] by simp
  have e2: "(2::rat) powi (bitlen n - 1) = 2 powi (k - 1) * 2 powi (bitlen d)"
    unfolding k_def powi_add[symmetric] by simp
  have "N < 2 powi (k + 1) * 2 powi (bitlen d - 1)" using bn(2) e1 by simp
  also have "\<dots> \<le> 2 powi (k + 1) * D"
    using bd(1) powi_pos[of "k + 1"] by (simp add: mult_left_mono)
  finally have up: "a < 2 powi (k + 1)" using Dpos by (simp add: a N_def[symmetric] D_def[symmetric] pos_divide_less_eq)
  have "2 powi (k - 1) * D < 2 powi (k - 1) * 2 powi (bitlen d)"
    using bd(2) powi_pos[of "k - 1"] by (simp add: mult_strict_left_mono)
  also have "\<dots> \<le> N" using bn(1) e2 by simp
  finally have lo: "2 powi (k - 1) < a" using Dpos by (simp add: a N_def[symmetric] D_def[symmetric] pos_less_divide_eq)
  have il: "ilog2 a = (if 2 powi k \<le> a then k else k - 1)"
    by (simp add: ilog2_def nd k_def Let_def)
  show "2 powi (ilog2 a) \<le> a" using il lo by (auto simp: not_le)
  show "a < 2 powi (ilog2 a + 1)" using il up by (auto simp: not_le)
qed

lemma ilog2_unique:
  assumes "2 powi e \<le> a" "a < 2 powi (e + 1)"
  shows "ilog2 a = e"
proof -
  have apos: "0 < a" using assms(1) powi_pos[of e] by linarith
  have 1: "2 powi (ilog2 a) < (2::rat) powi (e + 1)" using ilog2_bounds(1)[OF apos] assms(2) by linarith
  have 2: "2 powi e < (2::rat) powi (ilog2 a + 1)" using ilog2_bounds(2)[OF apos] assms(1) by linarith
  have "ilog2 a < e + 1" using 1 powi_mono[of "e + 1" "ilog2 a"] by (cases "ilog2 a < e + 1") auto
  moreover have "e < ilog2 a + 1" using 2 powi_mono[of "ilog2 a + 1" e] by (cases "e < ilog2 a + 1") auto
  ultimately show ?thesis by linarith
qed

lemma ilog2_mono:
  assumes "0 < a" "a \<le> b"
  shows "ilog2 a \<le> ilog2 b"
proof -
  have bpos: "0 < b" using assms by linarith
  have "2 powi (ilog2 a) < (2::rat) powi (ilog2 b + 1)"
    using ilog2_bounds(1)[OF assms(1)] ilog2_bounds(2)[OF bpos] assms(2) by linarith
  then have "ilog2 a < ilog2 b + 1" using powi_mono[of "ilog2 b + 1" "ilog2 a"] by (cases "ilog2 a < ilog2 b + 1") auto
  then show ?thesis by linarith
qed

lemma flq_pos_eq: "0 < a \<Longrightarrow> flq a = of_int (rhe (a / 2 powi (fexp a))) * 2 powi (fexp a)"
  by (simp add: flq_def Let_def)

lemma flq_neg: "flq (- a) = - flq a"
  by (simp add: flq_def Let_def)

lemma flq_zero: "flq 0 = 0" by (simp add: flq_def)

lemma scaled_upper: assumes "0 < a" shows "a / 2 powi (fexp a) < 2 ^ 53"
proof -
  have "a < 2 powi (ilog2 a + 1)" using ilog2_bounds(2)[OF assms] .
  also have "\<dots> \<le> 2 powi (fexp a + 53)" by (rule powi_mono) (simp add: fexp_def)
  also have "\<dots> = 2 powi (fexp a) * 2 ^ 53" by (simp add: powi_add)
  finally show ?thesis using powi_pos[of "fexp a"] by (simp add: pos_divide_less_eq mult.commute)
qed

lemma scaled_lower: assumes "0 < a" "- 1074 < fexp a" shows "2 ^ 52 \<le> a / 2 powi (fexp a)"
proof -
  have e: "fexp a = ilog2 a - 52" using assms(2) by (simp add: fexp_def max_def split: if_splits)
  have "2 powi (fexp a) * 2 ^ 52 = (2::rat) powi (ilog2 a)" unfolding e
    using powi_add[of "ilog2 a - 52" 52] by simp
  also have "\<dots> \<le> a" using ilog2_bounds(1)[OF assms(1)] .
  finally show ?thesis using powi_pos[of "fexp a"] by (simp add: pos_le_divide_eq mult.commute)
qed

lemma rhe_scaled_upper: assumes "0 < a" shows "rhe (a / 2 powi (fexp a)) \<le> 2 ^ 53"
proof -
  have "rhe (a / 2 powi (fexp a)) \<le> rhe (of_int (2 ^ 53))"
    by (rule rhe_mono) (use scaled_upper[OF assms] in simp)
  then show ?thesis by (simp only: rhe_of_int)
qed

lemma rhe_scaled_lower: assumes "0 < a" "- 1074 < fexp a" shows "2 ^ 52 \<le> rhe (a / 2 powi (fexp a))"
proof -
  have "rhe (of_int (2 ^ 52)) \<le> rhe (a / 2 powi (fexp a))"
    by (rule rhe_mono) (use scaled_lower[OF assms] in simp)
  then show ?thesis by (simp only: rhe_of_int)
qed

lemma rhe_nonneg: "0 \<le> q \<Longrightarrow> 0 \<le> rhe q"
  using rhe_mono[of 0 q] rhe_of_int[of 0] by simp

lemma flq_nonneg: assumes "0 \<le> a" shows "0 \<le> flq a"
proof (cases "a = 0")
  case True then show ?thesis by (simp add: flq_zero)
next
  case False
  then have apos: "0 < a" using assms by simp
  have "0 \<le> a / 2 powi (fexp a)" using apos powi_pos[of "fexp a"] by simp
  then have "0 \<le> rhe (a / 2 powi (fexp a))" by (rule rhe_nonneg)
  then show ?thesis using powi_pos[of "fexp a"] by (simp add: flq_pos_eq[OF apos])
qed

lemma flq_mono_pos:
  assumes "0 < a" "a \<le> b"
  shows "flq a \<le> flq b"
proof -
  have bpos: "0 < b" using assms by linarith
  have ee: "fexp a \<le> fexp b" using ilog2_mono[OF assms] by (simp add: fexp_def)
  show ?thesis
  proof (cases "fexp a = fexp b")
    case True
    have "a / 2 powi (fexp b) \<le> b / 2 powi (fexp b)"
      using assms(2) powi_pos[of "fexp b"] by (simp add: divide_right_mono)
    then have "rhe (a / 2 powi (fexp b)) \<le> rhe (b / 2 powi (fexp b))" by (rule rhe_mono)
    then show ?thesis using powi_pos[of "fexp b"]
      by (simp add: flq_pos_eq[OF assms(1)] flq_pos_eq[OF bpos] True)
  next
    case False
    then have lt: "fexp a + 1 \<le> fexp b" using ee by linarith
    have low: "- 1074 < fexp b" using lt by (simp add: fexp_def)
    have "(of_int (rhe (a / 2 powi (fexp a))) :: rat) \<le> of_int (2 ^ 53)"
      using rhe_scaled_upper[OF assms(1)] by (simp only: of_int_le_iff)
    then have "(of_int (rhe (a / 2 powi (fexp a))) :: rat) \<le> 2 ^ 53" by simp
    then have "flq a \<le> 2 ^ 53 * 2 powi (fexp a)"
      unfolding flq_pos_eq[OF assms(1)] using powi_pos[of "fexp a"]
      by (intro mult_right_mono) simp_all
    also have "\<dots> = 2 ^ 52 * 2 powi (fexp a + 1)" by (simp add: powi_add)
    also have "\<dots> \<le> 2 ^ 52 * 2 powi (fexp b)" using powi_mono[OF lt] by simp
    also have "\<dots> \<le> flq b"
    proof -
      have "(of_int (2 ^ 52) :: rat) \<le> of_int (rhe (b / 2 powi (fexp b)))"
        using rhe_scaled_lower[OF bpos low] by (simp only: of_int_le_iff)
      then have "(2 ^ 52 :: rat) \<le> of_int (rhe (b / 2 powi (fexp b)))" by simp
      then show ?thesis unfolding flq_pos_eq[OF bpos] using powi_pos[of "fexp b"]
        by (intro mult_right_mono) simp_all
    qed
    finally show ?thesis .
  qed
qed

lemma flq_mono: assumes "a \<le> b" shows "flq a \<le> flq b"
proof -
  consider "0 < a" | "a \<le> 0" "0 \<le> b" | "b < 0" by linarith
  then show ?thesis
  proof cases
    case 1 then show ?thesis using flq_mono_pos assms by simp
  next
    case 2
    have "flq a = - flq (- a)" using flq_neg[of "- a"] by simp
    moreover have "0 \<le> flq (- a)" using 2 flq_nonneg[of "- a"] by simp
    moreover have "0 \<le> flq b" using 2 flq_nonneg by simp
    ultimately show ?thesis by linarith
  next
    case 3
    have "flq (- b) \<le> flq (- a)" using flq_mono_pos[of "- b" "- a"] 3 assms by simp
    then show ?thesis by (simp add: flq_neg)
  qed
qed


lemma flq_exact_pos:
  assumes "0 < m" "m \<le> 2 ^ 53" "- 1074 \<le> e"
  shows "flq (of_int m * 2 powi e) = of_int m * 2 powi e"
proof -
  define a where "a = (of_int m :: rat) * 2 powi e"
  have apos: "0 < a" using assms(1) powi_pos[of e] by (simp add: a_def)
  have "a / 2 powi (fexp a) \<in> \<int>"
  proof (cases "fexp a \<le> e")
    case True
    have "a / 2 powi (fexp a) = of_int m * 2 powi (e - fexp a)"
      by (simp add: a_def power_int_diff)
    also have "\<dots> = of_int m * 2 ^ nat (e - fexp a)" using True by (simp add: power_int_def)
    also have "\<dots> = of_int (m * 2 ^ nat (e - fexp a))" by simp
    finally show ?thesis by (simp only: Ints_of_int)
  next
    case False
    then have gt: "e < fexp a" by simp
    then have fe: "fexp a = ilog2 a - 52" using assms(3) by (simp add: fexp_def max_def split: if_splits)
    have "(of_int m :: rat) \<le> of_int (2 ^ 53)" using assms(2) by (simp only: of_int_le_iff)
    then have "(of_int m :: rat) \<le> 2 ^ 53" by simp
    then have "a \<le> 2 ^ 53 * 2 powi e" using powi_pos[of e] by (simp add: a_def)
    also have "\<dots> = 2 powi (e + 53)" by (simp add: powi_add)
    finally have ale: "a \<le> 2 powi (e + 53)" .
    have "2 powi (ilog2 a) \<le> a" using ilog2_bounds(1)[OF apos] .
    moreover have "ilog2 a \<ge> e + 53" using gt fe by simp
    ultimately have "2 powi (e + 53) \<le> a" using powi_mono[of "e + 53" "ilog2 a"] by linarith
    then have aeq: "a = 2 powi (e + 53)" using ale by simp
    have "ilog2 a = e + 53" by (rule ilog2_unique) (simp_all add: aeq powi_strict)
    then have "fexp a = e + 1" using fe by simp
    then have fa: "fexp a = e + 1" .
    have "(2::rat) powi (e + 53) = 2 powi (e + 1) * 2 ^ 52"
      using powi_add[of "e + 1" 52] by (simp add: add.commute)
    then have a2: "a = 2 powi (e + 1) * 2 ^ 52" using aeq by simp
    have "a / 2 powi (fexp a) = a / 2 powi (e + 1)" by (simp only: fa)
    also have "\<dots> = 2 ^ 52" using powi_pos[of "e + 1"] by (subst a2) simp
    also have "\<dots> = of_int (2 ^ 52)" by simp
    finally show ?thesis by (simp only: Ints_of_int)
  qed
  then obtain k where k: "a / 2 powi (fexp a) = of_int k" by (auto elim: Ints_cases)
  have "flq a = of_int k * 2 powi (fexp a)" by (simp add: flq_pos_eq[OF apos] k rhe_of_int)
  also have "\<dots> = a" using k powi_pos[of "fexp a"] by (simp add: field_simps)
  finally show ?thesis by (simp add: a_def)
qed

lemma flq_exact:
  assumes "\<bar>m\<bar> \<le> 2 ^ 53" "- 1074 \<le> e"
  shows "flq (of_int m * 2 powi e) = of_int m * 2 powi e"
proof -
  consider "0 < m" | "m = 0" | "m < 0" by linarith
  then show ?thesis
  proof cases
    case 1 then show ?thesis using flq_exact_pos[of m e] assms by simp
  next
    case 2 then show ?thesis by (simp add: flq_zero)
  next
    case 3
    then have "flq (of_int (- m) * 2 powi e) = of_int (- m) * 2 powi e"
      using flq_exact_pos[of "- m" e] assms by simp
    then show ?thesis using flq_neg[of "of_int m * 2 powi e"] by simp
  qed
qed

lemma flq_idem: "flq (flq a) = flq a"
proof -
  have pos: "flq (flq a) = flq a" if apos: "0 < a" for a
  proof -
    have "0 \<le> a / 2 powi (fexp a)" using apos powi_pos[of "fexp a"] by simp
    then have "0 \<le> rhe (a / 2 powi (fexp a))" by (rule rhe_nonneg)
    then have "\<bar>rhe (a / 2 powi (fexp a))\<bar> \<le> 2 ^ 53" using rhe_scaled_upper[OF apos] by simp
    moreover have "- 1074 \<le> fexp a" by (simp add: fexp_def)
    ultimately show ?thesis unfolding flq_pos_eq[OF apos] by (rule flq_exact)
  qed
  consider "0 < a" | "a = 0" | "a < 0" by linarith
  then show ?thesis
  proof cases
    case 1 then show ?thesis by (rule pos)
  next
    case 2 then show ?thesis by (simp add: flq_zero)
  next
    case 3
    then have "flq (flq (- a)) = flq (- a)" using pos[of "- a"] by simp
    then show ?thesis by (simp add: flq_neg)
  qed
qed

lemma flq_of_int: "\<bar>m\<bar> \<le> 2 ^ 53 \<Longrightarrow> flq (of_int m) = of_int m"
  using flq_exact[of m 0] by simp

lemma flq_pow2: "flq (2 ^ n) = 2 ^ n"
  using flq_exact[of 1 "int n"] by simp

lemma flq_abs_le:
  assumes "\<bar>a\<bar> \<le> 2 ^ n"
  shows "\<bar>flq a\<bar> \<le> 2 ^ n"
proof -
  have "flq a \<le> flq (2 ^ n)" by (rule flq_mono) (use assms in linarith)
  moreover have "flq (- (2 ^ n)) \<le> flq a" by (rule flq_mono) (use assms in linarith)
  ultimately show ?thesis by (simp add: flq_neg flq_pow2)
qed

lemma float_overflow_pos: "0 < float_overflow"
  unfolding float_overflow_def by (rule zero_less_power) simp

lemma pow_less_overflow: "n < 1024 \<Longrightarrow> 2 ^ n < float_overflow"
  unfolding float_overflow_def by (rule power_strict_increasing) simp_all

lemma fl_cases: "fl a = PInf \<or> fl a = NInf \<or> fl a = Fin (flq a)"
  by (simp add: fl_def Let_def)

lemma fl_Fin_D: "fl a = Fin v \<Longrightarrow> v = flq a \<and> \<bar>v\<bar> < float_overflow"
  using float_overflow_pos by (auto simp add: fl_def Let_def split: if_splits)

lemma fl_Fin_I: "\<bar>flq a\<bar> < float_overflow \<Longrightarrow> fl a = Fin (flq a)"
  by (auto simp add: fl_def Let_def)

lemma fl_finite:
  assumes "\<bar>a\<bar> \<le> 2 ^ n" "n < 1024"
  shows "fl a = Fin (flq a)"
proof -
  have "\<bar>flq a\<bar> \<le> 2 ^ n" using assms(1) by (rule flq_abs_le)
  then have "\<bar>flq a\<bar> < float_overflow" using pow_less_overflow[OF assms(2)] by linarith
  then show ?thesis by (rule fl_Fin_I)
qed

lemma fl_one: "fl 1 = Fin 1"
  using fl_finite[of 1 0] flq_of_int[of 1] by simp

section \<open>Floats: finite results, order, literals\<close>

lemma rhe_eqI:
  assumes "\<bar>q - of_int m\<bar> * 2 < 1"
  shows "rhe q = m"
proof -
  have "q - 1/2 \<le> of_int (rhe q)" "of_int (rhe q) \<le> q + 1/2" using rhe_lower rhe_upper by auto
  moreover have "q - of_int m < 1/2" "of_int m - q < 1/2" using assms by (simp_all add: abs_if split: if_splits)
  ultimately have "\<bar>(of_int (rhe q) :: rat) - of_int m\<bar> < 1" by (simp add: abs_if)
  then have "\<bar>(of_int (rhe q - m) :: rat)\<bar> < of_int 1" by simp
  then have "\<bar>rhe q - m\<bar> < 1" by (simp only: of_int_abs[symmetric] of_int_less_iff)
  then show ?thesis by linarith
qed

lemma rhe_tie_even:
  assumes "even m" "\<bar>q - of_int m\<bar> * 2 = 1"
  shows "rhe q = m"
proof -
  consider "q = of_int m + 1/2" | "q = of_int m - 1/2"
    using assms(2) by (auto simp add: abs_if field_simps split: if_splits)
  then show ?thesis
  proof cases
    case 1
    have "\<lfloor>q\<rfloor> = m" unfolding 1 by (rule floor_unique) simp_all
    then show ?thesis using assms(1) by (simp add: rhe_def Let_def 1)
  next
    case 2
    have "\<lfloor>q\<rfloor> = m - 1" unfolding 2 by (rule floor_unique) simp_all
    then show ?thesis using assms(1) by (simp add: rhe_def Let_def 2)
  qed
qed

lemma flq_coreI:
  assumes m: "2 ^ 52 < m" "m < 2 ^ 53" and e: "- 1074 \<le> e"
    and near: "\<bar>a / 2 powi e - of_int m\<bar> * 2 \<le> 1"
    and r: "rhe (a / 2 powi e) = m"
  shows "flq a = of_int m * 2 powi e"
proof -
  define x where "x = a / 2 powi e"
  have pe: "0 < (2::rat) powi e" by (rule powi_pos)
  have ax: "a = x * 2 powi e" using pe by (simp add: x_def)
  have xm: "\<bar>x - of_int m\<bar> * 2 \<le> 1" using near by (simp add: x_def)
  have "(of_int (2 ^ 52 + 1) :: rat) \<le> of_int m" using m(1) by (simp only: of_int_le_iff)
  then have m1: "(2 ^ 52 + 1 :: rat) \<le> of_int m" by simp
  have "(of_int m :: rat) \<le> of_int (2 ^ 53 - 1)" using m(2) by (simp only: of_int_le_iff)
  then have m2: "(of_int m :: rat) \<le> 2 ^ 53 - 1" by simp
  have xm': "x - of_int m \<le> 1/2" "of_int m - x \<le> 1/2" using xm by (simp_all add: abs_if split: if_splits)
  have x1: "2 ^ 52 \<le> x" using xm'(2) m1 by linarith
  have x2: "x < 2 ^ 53" using xm'(1) m2 by linarith
  have apos: "0 < a" using x1 pe by (simp add: ax zero_less_mult_iff)
  have "2 powi (e + 52) \<le> a" using x1 pe by (simp add: ax powi_add mult.commute)
  moreover have "a < 2 powi (e + 52 + 1)"
  proof -
    have "a < 2 ^ 53 * 2 powi e" using x2 pe by (simp add: ax)
    also have "\<dots> = 2 powi (e + 52 + 1)" using powi_add[of e 53] by (simp add: add.commute mult.commute add.assoc)
    finally show ?thesis .
  qed
  ultimately have "ilog2 a = e + 52" by (rule ilog2_unique)
  then have fe: "fexp a = e" using e by (simp add: fexp_def)
  show ?thesis using r by (simp add: flq_pos_eq[OF apos] fe)
qed

lemma scaled_distance:
  "\<bar>(a::rat) / 2 powi e - of_int m\<bar> * 2 powi e = \<bar>a - of_int m * 2 powi e\<bar>"
proof -
  have pe: "0 < (2::rat) powi e" by (rule powi_pos)
  have "a - of_int m * 2 powi e = (a / 2 powi e - of_int m) * 2 powi e"
    using pe by (simp add: left_diff_distrib)
  then show ?thesis using pe by (simp add: abs_mult)
qed

lemma flq_eqI:
  assumes m: "2 ^ 52 < m" "m < 2 ^ 53" and e: "- 1074 \<le> e"
    and near: "\<bar>a - of_int m * 2 powi e\<bar> * 2 < 2 powi e"
  shows "flq a = of_int m * 2 powi e"
proof -
  have pe: "0 < (2::rat) powi e" by (rule powi_pos)
  define X where "X = \<bar>a / 2 powi e - of_int m\<bar>"
  define P where "P = (2::rat) powi e"
  have "(X * 2) * P = (X * P) * 2" by (simp only: mult.assoc mult.commute)
  also have "\<dots> = \<bar>a - of_int m * 2 powi e\<bar> * 2"
    unfolding X_def P_def by (simp only: scaled_distance)
  also have "\<dots> < P" unfolding P_def by (rule near)
  finally have "(X * 2) * P < 1 * P" by simp
  then have "X * 2 < 1" using pe unfolding P_def by (simp only: mult_less_cancel_right_pos)
  then have xm: "\<bar>a / 2 powi e - of_int m\<bar> * 2 < 1" unfolding X_def .
  then have "rhe (a / 2 powi e) = m" by (rule rhe_eqI)
  moreover have "\<bar>a / 2 powi e - of_int m\<bar> * 2 \<le> 1" using xm by simp
  ultimately show ?thesis using m e by (intro flq_coreI)
qed

lemma flq_tieI:
  assumes m: "2 ^ 52 < m" "m < 2 ^ 53" "even m" and e: "- 1074 \<le> e"
    and near: "\<bar>a - of_int m * 2 powi e\<bar> * 2 = 2 powi e"
  shows "flq a = of_int m * 2 powi e"
proof -
  have pe: "0 < (2::rat) powi e" by (rule powi_pos)
  define X where "X = \<bar>a / 2 powi e - of_int m\<bar>"
  define P where "P = (2::rat) powi e"
  have "(X * 2) * P = (X * P) * 2" by (simp only: mult.assoc mult.commute)
  also have "\<dots> = \<bar>a - of_int m * 2 powi e\<bar> * 2"
    unfolding X_def P_def by (simp only: scaled_distance)
  also have "\<dots> = P" unfolding P_def by (rule near)
  finally have "(X * 2) * P = 1 * P" by simp
  moreover have "P \<noteq> 0" using pe unfolding P_def by simp
  ultimately have "X * 2 = 1" by (simp only: mult_cancel_right) simp
  then have xm: "\<bar>a / 2 powi e - of_int m\<bar> * 2 = 1" unfolding X_def .
  then have "rhe (a / 2 powi e) = m" using m(3) by (intro rhe_tie_even)
  moreover have "\<bar>a / 2 powi e - of_int m\<bar> * 2 \<le> 1" using xm by simp
  ultimately show ?thesis using m e by (intro flq_coreI)
qed

lemma fl_nonneg: "0 \<le> a \<Longrightarrow> fl a = PInf \<or> fl a = Fin (flq a)"
proof -
  assume "0 \<le> a"
  then have "0 \<le> flq a" by (rule flq_nonneg)
  then have "\<not> flq a \<le> - float_overflow" using float_overflow_pos by linarith
  then show ?thesis by (simp add: fl_def Let_def)
qed

lemma fl_idem: assumes "fl a = Fin v" shows "fl v = Fin v"
proof -
  have v: "v = flq a" "\<bar>v\<bar> < float_overflow" using fl_Fin_D[OF assms] by blast+
  have fv: "flq v = v" by (simp add: v(1) flq_idem)
  have "\<bar>flq v\<bar> < float_overflow" unfolding fv by (rule v(2))
  then have "fl v = Fin (flq v)" by (rule fl_Fin_I)
  then show ?thesis unfolding fv .
qed

lemma fl_le_Fin:
  assumes "0 \<le> a" "a \<le> b" "fl b = Fin w"
  shows "fl a = Fin (flq a) \<and> 0 \<le> flq a \<and> flq a \<le> w"
proof -
  have w: "w = flq b" "\<bar>w\<bar> < float_overflow" using fl_Fin_D[OF assms(3)] by blast+
  have 1: "flq a \<le> w" unfolding w(1) using assms(2) by (rule flq_mono)
  have 2: "0 \<le> flq a" using assms(1) by (rule flq_nonneg)
  have "\<bar>flq a\<bar> < float_overflow" using 1 2 w(2) by linarith
  then show ?thesis using 1 2 fl_Fin_I by simp
qed

lemma from_int_Inr_D: "from_int n = Inr b \<Longrightarrow> b = Fin (flq (of_int n)) \<and> fl (of_int n) = Fin (flq (of_int n))"
  using fl_cases[of "of_int n"] by (auto simp add: from_int_def split: pyfloat.splits)

lemma from_int_pos:
  assumes "0 < n" "from_int n = Inr b"
  shows "\<exists>v. b = Fin v \<and> 1 \<le> v \<and> fl v = Fin v \<and> v = flq (of_int n)"
proof -
  have b: "b = Fin (flq (of_int n))" and f: "fl (of_int n) = Fin (flq (of_int n))"
    using from_int_Inr_D[OF assms(2)] by simp_all
  have "flq 1 \<le> flq (of_int n)" by (rule flq_mono) (use assms(1) in simp)
  then have "1 \<le> flq (of_int n)" using flq_of_int[of 1] by simp
  then show ?thesis using b fl_idem[OF f] by simp
qed

lemma true_div_Inr_D:
  "true_div a b = Inr r \<Longrightarrow> b \<noteq> 0 \<and> r = Fin (flq (of_int a / of_int b))"
  using fl_cases[of "of_int a / of_int b"] by (auto simp add: true_div_def split: pyfloat.splits if_splits)

lemma flq_13_10: "flq (13 / 10) = 5854679515581645 / 4503599627370496"
  using flq_eqI[of 5854679515581645 "- 52" "13 / 10"] by (simp add: power_int_minus)

lemma flq_11_10: "flq (11 / 10) = 2476979795053773 / 2251799813685248"
  using flq_eqI[of 4953959590107546 "- 52" "11 / 10"] by (simp add: power_int_minus)

lemma flq_4_5: "flq (4 / 5) = 3602879701896397 / 4503599627370496"
  using flq_eqI[of 7205759403792794 "- 53" "4 / 5"] by (simp add: power_int_minus)

lemma flq_23_20: "flq (23 / 20) = 2589569785738035 / 2251799813685248"
  using flq_eqI[of 5179139571476070 "- 52" "23 / 20"] by (simp add: power_int_minus)

lemma flq_27_25: "flq (27 / 25) = 607985949695017 / 562949953421312"
  using flq_eqI[of 4863887597560136 "- 52" "27 / 25"] by (simp add: power_int_minus)

lemma flq_9_10: "flq (9 / 10) = 8106479329266893 / 9007199254740992"
  using flq_eqI[of 8106479329266893 "- 53" "9 / 10"] by (simp add: power_int_minus)

lemma flq_7_10: "flq (7 / 10) = 3152519739159347 / 4503599627370496"
  using flq_eqI[of 6305039478318694 "- 53" "7 / 10"] by (simp add: power_int_minus)

lemma small_fl: "\<bar>a\<bar> \<le> 2 ^ 60 \<Longrightarrow> fl a = Fin (flq a)"
  by (rule fl_finite[of a 60]) simp_all

lemma fl_13_10: "fl (13/10) = Fin (5854679515581645 / 4503599627370496)"
  using small_fl[of "13/10"] by (simp add: flq_13_10)

lemma fl_11_10: "fl (11/10) = Fin (2476979795053773 / 2251799813685248)"
  using small_fl[of "11/10"] by (simp add: flq_11_10)

lemma fl_4_5: "fl (4/5) = Fin (3602879701896397 / 4503599627370496)"
  using small_fl[of "4/5"] by (simp add: flq_4_5)

lemma fl_23_20: "fl (23/20) = Fin (2589569785738035 / 2251799813685248)"
  using small_fl[of "23/20"] by (simp add: flq_23_20)

lemma fl_27_25: "fl (27/25) = Fin (607985949695017 / 562949953421312)"
  using small_fl[of "27/25"] by (simp add: flq_27_25)

lemma fl_9_10: "fl (9/10) = Fin (8106479329266893 / 9007199254740992)"
  using small_fl[of "9/10"] by (simp add: flq_9_10)

lemma fl_7_10: "fl (7/10) = Fin (3152519739159347 / 4503599627370496)"
  using small_fl[of "7/10"] by (simp add: flq_7_10)

lemma fl_3_2: "fl (3 / 2) = Fin (3 / 2)"
  using small_fl[of "3 / 2"] flq_exact[of 3 "- 1"] by (simp add: power_int_minus)

lemmas fl_literals = fl_13_10 fl_11_10 fl_4_5 fl_23_20 fl_27_25 fl_9_10 fl_7_10 fl_3_2 fl_one

lemma thresholds:
  "CRITICAL_SHORTAGE_THRESHOLD = Fin (5854679515581645 / 4503599627370496)"
  "SHORTAGE_THRESHOLD = Fin (2476979795053773 / 2251799813685248)"
  "SURPLUS_THRESHOLD = Fin (3602879701896397 / 4503599627370496)"
  by (simp_all add: CRITICAL_SHORTAGE_THRESHOLD_def SHORTAGE_THRESHOLD_def SURPLUS_THRESHOLD_def fl_literals)

lemma multipliers:
  "CRITICAL_SHORTAGE_MULTIPLIER = Fin (2589569785738035 / 2251799813685248)"
  "SHORTAGE_MULTIPLIER = Fin (607985949695017 / 562949953421312)"
  "NORMAL_MULTIPLIER = Fin 1"
  "SURPLUS_MULTIPLIER = Fin (8106479329266893 / 9007199254740992)"
  by (simp_all add: CRITICAL_SHORTAGE_MULTIPLIER_def SHORTAGE_MULTIPLIER_def NORMAL_MULTIPLIER_def
      SURPLUS_MULTIPLIER_def fl_literals)

lemma limits:
  "MAX_PRICE_INCREASE = Fin (3 / 2)"
  "MAX_PRICE_DECREASE = Fin (3152519739159347 / 4503599627370496)"
  by (simp_all add: MAX_PRICE_INCREASE_def MAX_PRICE_DECREASE_def fl_literals)

section \<open>Formatting the integers of the audit strings\<close>

lemma str_limit_gt: "(2::int) ^ 1024 < 10 ^ int_max_str_digits"
proof -
  have "(2::int) ^ 1024 < 10 ^ 1024" by (rule power_strict_mono) simp_all
  also have "\<dots> \<le> 10 ^ int_max_str_digits"
    by (rule power_increasing) (simp_all add: int_max_str_digits_def)
  finally show ?thesis .
qed

lemma format_int_below: "\<bar>n\<bar> < 10 ^ int_max_str_digits \<Longrightarrow> format_int n = Inr ()"
  by (simp add: format_int_def)

lemma format_int_fail: "10 ^ int_max_str_digits \<le> \<bar>n\<bar> \<Longrightarrow> format_int n = Inl ValueError"
  by (simp add: format_int_def)

lemma format_int_ok:
  assumes "\<bar>n\<bar> \<le> 2 ^ k" "k \<le> 1024"
  shows "format_int n = Inr ()"
proof -
  have "(2::int) ^ k \<le> 2 ^ 1024" using assms(2) by (intro power_increasing) simp_all
  then have "\<bar>n\<bar> < 10 ^ int_max_str_digits" using assms(1) str_limit_gt by linarith
  then show ?thesis by (rule format_int_below)
qed

lemma format_int_small: "\<bar>n\<bar> \<le> 2 ^ 60 \<Longrightarrow> format_int n = Inr ()"
  by (rule format_int_ok[of n 60]) simp_all

lemma fmul_Fin_bound: "fmul x y = Fin v \<Longrightarrow> \<bar>v\<bar> < float_overflow"
  by (cases x; cases y) (auto dest: fl_Fin_D split: if_splits)

text \<open>The price shown in the formula string is a finite float cut to an integer; it has at
  most 309 digits and always prints.\<close>

lemma py_int_format:
  assumes "\<bar>v\<bar> < float_overflow"
  shows "\<exists>k. py_int (Fin v) = Inr k \<and> format_int k = Inr ()"
proof -
  define k where "k = (if 0 \<le> v then \<lfloor>v\<rfloor> else \<lceil>v\<rceil>)"
  have "\<bar>of_int k :: rat\<bar> \<le> \<bar>v\<bar>"
  proof (cases "0 \<le> v")
    case True
    then have "0 \<le> \<lfloor>v\<rfloor>" by simp
    then have "0 \<le> (of_int \<lfloor>v\<rfloor> :: rat)" by simp
    moreover have "(of_int \<lfloor>v\<rfloor> :: rat) \<le> v" by simp
    ultimately show ?thesis using True by (simp add: k_def)
  next
    case False
    then have "\<lceil>v\<rceil> \<le> 0" by (simp add: ceiling_le_zero)
    then have "(of_int \<lceil>v\<rceil> :: rat) \<le> 0" by simp
    moreover have "v \<le> (of_int \<lceil>v\<rceil> :: rat)" by simp
    ultimately show ?thesis using False by (simp add: k_def)
  qed
  then have "(of_int \<bar>k\<bar> :: rat) < 2 ^ 1024"
    using assms by (simp add: float_overflow_def)
  then have "(of_int \<bar>k\<bar> :: rat) < of_int (2 ^ 1024)" by simp
  then have "\<bar>k\<bar> < 2 ^ 1024" by (simp only: of_int_less_iff)
  then have "\<bar>k\<bar> \<le> 2 ^ 1024" by simp
  then have "format_int k = Inr ()" by (rule format_int_ok) simp
  moreover have "py_int (Fin v) = Inr k" by (simp add: k_def)
  ultimately show ?thesis by blast
qed

lemma apply_limits_cases:
  "apply_limits c mx mn = (cl, nt, cap) \<Longrightarrow> cl = c \<or> cl = mx \<or> cl = mn"
  by (auto simp add: apply_limits_def split: if_splits)

lemma shown_price_prints:
  assumes "apply_limits (fmul a b) (fmul c d) (fmul e f) = (cl, nt, cap)"
    and "py_round cl = Inr p"
  shows "\<exists>k. py_int cl = Inr k \<and> format_int k = Inr ()"
proof -
  obtain v where v: "cl = Fin v" using assms(2) by (cases cl) auto
  have "cl = fmul a b \<or> cl = fmul c d \<or> cl = fmul e f"
    using assms(1) by (rule apply_limits_cases)
  then have "\<bar>v\<bar> < float_overflow" using v fmul_Fin_bound by metis
  then show ?thesis unfolding v by (rule py_int_format)
qed

text \<open>\<open>calculate_price\<close> for a positive supply, with the step that cannot fail removed.\<close>

lemma calculate_price_pos:
  assumes "0 < supply"
  shows "calculate_price supply demand base_price season_factor =
     (case true_div demand supply of Inl e \<Rightarrow> Inl e | Inr r \<Rightarrow>
        (case price_tier r of (m, tier_reason) \<Rightarrow>
        (case from_int base_price of Inl e \<Rightarrow> Inl e | Inr b \<Rightarrow>
        (case apply_limits (fmul (fmul b m) season_factor)
                (fmul b MAX_PRICE_INCREASE) (fmul b MAX_PRICE_DECREASE)
         of (clamped, nt, capped) \<Rightarrow>
        (case py_round clamped of Inl e \<Rightarrow> Inl e | Inr p \<Rightarrow>
        (case format_int demand of Inl e \<Rightarrow> Inl e | Inr u1 \<Rightarrow>
        (case format_int supply of Inl e \<Rightarrow> Inl e | Inr u2 \<Rightarrow>
        (case format_int base_price of Inl e \<Rightarrow> Inl e | Inr u3 \<Rightarrow>
           Inr \<lparr>suggested_price = p, ratio = Some (round2 r),
                multiplier = round2 m, reason = tier_reason @ nt, is_capped = capped,
                calculations = \<lparr>calc_base_price = base_price, calc_supply = supply,
                  calc_demand = demand, calc_season_factor = season_factor\<rparr>\<rparr>))))))))"
proof (cases "true_div demand supply")
  case (Inl e)
  then show ?thesis using assms by (simp add: calculate_price_def)
next
  case r: (Inr r)
  obtain m tr where pt: "price_tier r = (m, tr)" by (cases "price_tier r")
  show ?thesis
  proof (cases "from_int base_price")
    case (Inl e)
    then show ?thesis using assms r pt by (simp add: calculate_price_def)
  next
    case b: (Inr b)
    obtain cl nt cap where al: "apply_limits (fmul (fmul b m) season_factor)
        (fmul b MAX_PRICE_INCREASE) (fmul b MAX_PRICE_DECREASE) = (cl, nt, cap)"
      by (metis prod_cases3)
    show ?thesis
    proof (cases "py_round cl")
      case (Inl e)
      then show ?thesis using assms r pt b al by (simp add: calculate_price_def)
    next
      case p: (Inr p)
      obtain k where k: "py_int cl = Inr k" "format_int k = Inr ()"
        using shown_price_prints[OF al p] by blast
      show ?thesis using assms r pt b al p k
        by (simp add: calculate_price_def split: sum.splits)
    qed
  qed
qed

lemmas calc_defs = calculate_price_pos true_div_def from_int_def price_tier_def apply_limits_def
  fgt_def thresholds multipliers limits format_int_small

section \<open>The tier chain\<close>

lemma round2_multipliers:
  "round2 (Fin (2589569785738035 / 2251799813685248)) = Fin (2589569785738035 / 2251799813685248)"
  "round2 (Fin (607985949695017 / 562949953421312)) = Fin (607985949695017 / 562949953421312)"
  "round2 (Fin (8106479329266893 / 9007199254740992)) = Fin (8106479329266893 / 9007199254740992)"
  "round2 (Fin 1) = Fin 1"
proof -
  have "rhe (64739244643450875 / 562949953421312) = 115"
    using rhe_eqI[of "64739244643450875 / 562949953421312" 115] by simp
  then show "round2 (Fin (2589569785738035 / 2251799813685248)) = Fin (2589569785738035 / 2251799813685248)"
    by (simp add: fl_literals)
  have "rhe (15199648742375425 / 140737488355328) = 108"
    using rhe_eqI[of "15199648742375425 / 140737488355328" 108] by simp
  then show "round2 (Fin (607985949695017 / 562949953421312)) = Fin (607985949695017 / 562949953421312)"
    by (simp add: fl_literals)
  have "rhe (202661983231672325 / 2251799813685248) = 90"
    using rhe_eqI[of "202661983231672325 / 2251799813685248" 90] by simp
  then show "round2 (Fin (8106479329266893 / 9007199254740992)) = Fin (8106479329266893 / 9007199254740992)"
    by (simp add: fl_literals)
  show "round2 (Fin 1) = Fin 1"
    using rhe_of_int[of 100] by (simp add: fl_literals)
qed

text \<open>What a returned result of \<open>calculate_price\<close> is made of, for a positive supply.\<close>

lemma calculate_price_Inr_D:
  assumes "0 < supply" "calculate_price supply demand base_price season_factor = Inr res"
  shows "\<exists>r b clamped note capped p.
     true_div demand supply = Inr r \<and> from_int base_price = Inr b \<and>
     apply_limits (fmul (fmul b (fst (price_tier r))) season_factor)
        (fmul b MAX_PRICE_INCREASE) (fmul b MAX_PRICE_DECREASE) = (clamped, note, capped) \<and>
     py_round clamped = Inr p \<and>
     suggested_price res = p \<and> ratio res = Some (round2 r) \<and>
     multiplier res = round2 (fst (price_tier r)) \<and>
     reason res = snd (price_tier r) @ note \<and> is_capped res = capped"
  using assms(2) unfolding calculate_price_pos[OF assms(1)]
  by (auto split: sum.splits prod.splits if_splits)

lemma price_tier_multiplier:
  "round2 (fst (price_tier r)) =
     (if fgt r (fl (130 / 100)) then fl (115 / 100)
      else if fgt r (fl (110 / 100)) then fl (108 / 100)
      else if fless r (fl (80 / 100)) then fl (90 / 100)
      else fl 1)"
  by (simp add: price_tier_def thresholds multipliers fl_literals round2_multipliers del: round2.simps)

lemma price_tier_reason:
  "snd (price_tier r) =
     (if fgt r (fl (130 / 100)) then ''Critical shortage (ratio > 1.30)''
      else if fgt r (fl (110 / 100)) then ''Shortage detected (ratio > 1.10)''
      else if fless r (fl (80 / 100)) then ''Surplus available (ratio < 0.80)''
      else ''Balanced supply-demand (0.80-1.10)'')"
  by (simp add: price_tier_def thresholds fl_literals)

text \<open>The float comparisons of a quotient of integers against the three thresholds agree
  with the exact comparisons as long as the supply stays below \<open>10^14\<close>: the quotient
  then differs from a threshold by more than the spacing of the floats around it.\<close>

lemma quotient_gap_up:
  assumes "0 < s" "0 < b" "a * s < b * d"
  shows "of_int a / of_int b + 1 / (of_int b * of_int s) \<le> (of_int d :: rat) / of_int s"
proof -
  define S B A D where "S = (of_int s :: rat)" and "B = (of_int b :: rat)"
    and "A = (of_int a :: rat)" and "D = (of_int d :: rat)"
  have pos: "0 < S" "0 < B" using assms(1,2) by (simp_all add: S_def B_def)
  have "a * s + 1 \<le> b * d" using assms(3) by simp
  then have "(of_int (a * s + 1) :: rat) \<le> of_int (b * d)" by (simp only: of_int_le_iff)
  then have "A * S + 1 \<le> B * D" by (simp add: S_def B_def A_def D_def)
  then have "(A * S + 1) / (B * S) \<le> (B * D) / (B * S)"
    using pos by (intro divide_right_mono) simp_all
  moreover have "(A * S + 1) / (B * S) = A / B + 1 / (B * S)"
    using pos by (simp add: add_divide_distrib)
  moreover have "(B * D) / (B * S) = D / S" using pos by simp
  ultimately show ?thesis by (simp add: S_def B_def A_def D_def)
qed

lemma quotient_gap_down:
  assumes "0 < s" "0 < b" "b * d < a * s"
  shows "(of_int d :: rat) / of_int s \<le> of_int a / of_int b - 1 / (of_int b * of_int s)"
proof -
  define S B A D where "S = (of_int s :: rat)" and "B = (of_int b :: rat)"
    and "A = (of_int a :: rat)" and "D = (of_int d :: rat)"
  have pos: "0 < S" "0 < B" using assms(1,2) by (simp_all add: S_def B_def)
  have "b * d \<le> a * s - 1" using assms(3) by simp
  then have "(of_int (b * d) :: rat) \<le> of_int (a * s - 1)" by (simp only: of_int_le_iff)
  then have "B * D \<le> A * S - 1" by (simp add: S_def B_def A_def D_def)
  then have "(B * D) / (B * S) \<le> (A * S - 1) / (B * S)"
    using pos by (intro divide_right_mono) simp_all
  moreover have "(A * S - 1) / (B * S) = A / B - 1 / (B * S)"
    using pos by (simp add: diff_divide_distrib)
  moreover have "(B * D) / (B * S) = D / S" using pos by simp
  ultimately show ?thesis by (simp add: S_def B_def A_def D_def)
qed

lemma quotient_le:
  assumes "0 < s" "0 < b" "b * d \<le> a * s"
  shows "(of_int d :: rat) / of_int s \<le> of_int a / of_int b"
proof -
  have "(of_int (b * d) :: rat) \<le> of_int (a * s)" using assms(3) by (simp only: of_int_le_iff)
  then have "(of_int d :: rat) * of_int b \<le> of_int a * of_int s" by (simp add: mult.commute)
  then show ?thesis using assms(1,2) by (simp add: frac_le_eq divide_le_0_iff field_simps)
qed

lemma quotient_ge:
  assumes "0 < s" "0 < b" "a * s \<le> b * d"
  shows "of_int a / of_int b \<le> (of_int d :: rat) / of_int s"
proof -
  have "(of_int (a * s) :: rat) \<le> of_int (b * d)" using assms(3) by (simp only: of_int_le_iff)
  then have "(of_int a :: rat) * of_int s \<le> of_int d * of_int b" by (simp add: mult.commute)
  then show ?thesis using assms(1,2) by (simp add: frac_le_eq divide_le_0_iff field_simps)
qed

lemma supply_gap:
  assumes "0 < s" "s \<le> 10 ^ 14"
  shows "1 / (100000000000000 :: rat) \<le> 1 / of_int s"
proof -
  have "(of_int s :: rat) \<le> of_int (10 ^ 14)" using assms(2) by (simp only: of_int_le_iff)
  then have "(of_int s :: rat) \<le> 100000000000000" by simp
  then show ?thesis using assms(1) by (intro divide_left_mono) simp_all
qed

lemma quotient_gt_130:
  assumes "0 < s" "s \<le> 10 ^ 14"
  shows "(flq (13 / 10) < flq (of_int d / of_int s)) = (13 * s < 10 * d)"
proof
  assume lt: "flq (13 / 10) < flq (of_int d / of_int s)"
  show "13 * s < 10 * d"
  proof (rule ccontr)
    assume "\<not> 13 * s < 10 * d"
    then have "10 * d \<le> 13 * s" by simp
    then have "(of_int d :: rat) / of_int s \<le> of_int 13 / of_int 10"
      using assms(1) by (intro quotient_le) simp_all
    then have "flq (of_int d / of_int s) \<le> flq (13 / 10)" using flq_mono by simp
    with lt show False by simp
  qed
next
  assume "13 * s < 10 * d"
  then have "of_int 13 / of_int 10 + 1 / (of_int 10 * of_int s) \<le> (of_int d :: rat) / of_int s"
    using assms(1) by (intro quotient_gap_up) simp_all
  then have 1: "13 / 10 + (1 / of_int s) / 10 \<le> (of_int d :: rat) / of_int s" by simp
  have "(5854679515581646 / 4503599627370496 :: rat) \<le> 13 / 10 + (1 / 100000000000000) / 10" by simp
  also have "\<dots> \<le> 13 / 10 + (1 / of_int s) / 10"
    using supply_gap[OF assms] by (intro add_left_mono divide_right_mono) simp_all
  also note 1
  finally have "(5854679515581646 / 4503599627370496 :: rat) \<le> of_int d / of_int s" .
  then have "flq (5854679515581646 / 4503599627370496) \<le> flq (of_int d / of_int s)"
    by (rule flq_mono)
  moreover have "flq (5854679515581646 / 4503599627370496) = 5854679515581646 / 4503599627370496"
    using flq_exact[of 5854679515581646 "- 52"] by (simp add: power_int_minus)
  ultimately show "flq (13 / 10) < flq (of_int d / of_int s)" by (simp add: flq_13_10)
qed

lemma quotient_gt_110:
  assumes "0 < s" "s \<le> 10 ^ 14"
  shows "(flq (11 / 10) < flq (of_int d / of_int s)) = (11 * s < 10 * d)"
proof
  assume lt: "flq (11 / 10) < flq (of_int d / of_int s)"
  show "11 * s < 10 * d"
  proof (rule ccontr)
    assume "\<not> 11 * s < 10 * d"
    then have "10 * d \<le> 11 * s" by simp
    then have "(of_int d :: rat) / of_int s \<le> of_int 11 / of_int 10"
      using assms(1) by (intro quotient_le) simp_all
    then have "flq (of_int d / of_int s) \<le> flq (11 / 10)" using flq_mono by simp
    with lt show False by simp
  qed
next
  assume "11 * s < 10 * d"
  then have "of_int 11 / of_int 10 + 1 / (of_int 10 * of_int s) \<le> (of_int d :: rat) / of_int s"
    using assms(1) by (intro quotient_gap_up) simp_all
  then have 1: "11 / 10 + (1 / of_int s) / 10 \<le> (of_int d :: rat) / of_int s" by simp
  have "(4953959590107547 / 4503599627370496 :: rat) \<le> 11 / 10 + (1 / 100000000000000) / 10" by simp
  also have "\<dots> \<le> 11 / 10 + (1 / of_int s) / 10"
    using supply_gap[OF assms] by (intro add_left_mono divide_right_mono) simp_all
  also note 1
  finally have "(4953959590107547 / 4503599627370496 :: rat) \<le> of_int d / of_int s" .
  then have "flq (4953959590107547 / 4503599627370496) \<le> flq (of_int d / of_int s)"
    by (rule flq_mono)
  moreover have "flq (4953959590107547 / 4503599627370496) = 4953959590107547 / 4503599627370496"
    using flq_exact[of 4953959590107547 "- 52"] by (simp add: power_int_minus)
  ultimately show "flq (11 / 10) < flq (of_int d / of_int s)" by (simp add: flq_11_10)
qed

lemma quotient_lt_080:
  assumes "0 < s" "s \<le> 10 ^ 14"
  shows "(flq (of_int d / of_int s) < flq (4 / 5)) = (5 * d < 4 * s)"
proof
  assume lt: "flq (of_int d / of_int s) < flq (4 / 5)"
  show "5 * d < 4 * s"
  proof (rule ccontr)
    assume "\<not> 5 * d < 4 * s"
    then have "4 * s \<le> 5 * d" by simp
    then have "of_int 4 / of_int 5 \<le> (of_int d :: rat) / of_int s"
      using assms(1) by (intro quotient_ge) simp_all
    then have "flq (4 / 5) \<le> flq (of_int d / of_int s)" using flq_mono by simp
    with lt show False by simp
  qed
next
  assume "5 * d < 4 * s"
  then have "(of_int d :: rat) / of_int s \<le> of_int 4 / of_int 5 - 1 / (of_int 5 * of_int s)"
    using assms(1) by (intro quotient_gap_down) simp_all
  then have 1: "(of_int d :: rat) / of_int s \<le> 4 / 5 - (1 / of_int s) / 5" by simp
  note 1
  also have "4 / 5 - (1 / of_int s) / 5 \<le> (4 / 5 - (1 / 100000000000000) / 5 :: rat)"
    using supply_gap[OF assms] by (intro diff_left_mono divide_right_mono) simp_all
  also have "\<dots> \<le> 7205759403792793 / 9007199254740992" by simp
  finally have "(of_int d :: rat) / of_int s \<le> 7205759403792793 / 9007199254740992" .
  then have "flq (of_int d / of_int s) \<le> flq (7205759403792793 / 9007199254740992)"
    by (rule flq_mono)
  moreover have "flq (7205759403792793 / 9007199254740992) = 7205759403792793 / 9007199254740992"
    using flq_exact[of 7205759403792793 "- 53"] by (simp add: power_int_minus)
  ultimately show "flq (of_int d / of_int s) < flq (4 / 5)" by (simp add: flq_4_5)
qed

section \<open>The hard limits\<close>

lemma ilog2_less:
  assumes "0 < a" "a < 2 powi k"
  shows "ilog2 a < k"
proof -
  have "2 powi (ilog2 a) < (2::rat) powi k" using ilog2_bounds(1)[OF assms(1)] assms(2) by linarith
  then show ?thesis using powi_mono[of k "ilog2 a"] by (cases "ilog2 a < k") auto
qed

text \<open>Below \<open>2^50\<close> the floats are at most \<open>1/8\<close> apart, so rounding moves a value by
  at most \<open>1/16\<close>.\<close>

lemma flq_lower:
  assumes "0 < a" "a < 2 ^ 50"
  shows "a - 1 / 16 \<le> flq a"
proof -
  define P where "P = (2::rat) powi (fexp a)"
  have Ppos: "0 < P" unfolding P_def by (rule powi_pos)
  have "ilog2 a < 50" using assms by (intro ilog2_less) simp_all
  then have "fexp a \<le> - 3" by (simp add: fexp_def)
  then have "P \<le> 2 powi (- 3)" unfolding P_def by (rule powi_mono)
  then have P8: "P \<le> 1 / 8" by (simp add: power_int_minus)
  have "a / P - 1 / 2 \<le> of_int (rhe (a / P))" by (rule rhe_lower)
  then have "(a / P - 1 / 2) * P \<le> of_int (rhe (a / P)) * P"
    using Ppos by (intro mult_right_mono) simp_all
  moreover have "(a / P - 1 / 2) * P = a - P / 2" using Ppos by (simp add: left_diff_distrib)
  moreover have "flq a = of_int (rhe (a / P)) * P" unfolding P_def by (rule flq_pos_eq[OF assms(1)])
  ultimately have "a - P / 2 \<le> flq a" by simp
  then show ?thesis using P8 by linarith
qed

lemma limits_of_base:
  assumes "1 \<le> b" "fl b = Fin b"
  shows "\<exists>mn. fmul (Fin b) MAX_PRICE_DECREASE = Fin mn \<and> 0 \<le> mn \<and>
           (fmul (Fin b) MAX_PRICE_INCREASE = PInf \<or>
            (\<exists>mx. fmul (Fin b) MAX_PRICE_INCREASE = Fin mx \<and> mn \<le> mx))"
proof -
  define lo where "lo = b * (3152519739159347 / 4503599627370496)"
  define hi where "hi = b * (3 / 2)"
  have lo: "0 \<le> lo" "lo \<le> b" "lo \<le> hi" using assms(1) by (simp_all add: lo_def hi_def)
  have mn: "fl lo = Fin (flq lo)" "0 \<le> flq lo" using fl_le_Fin[OF lo(1,2) assms(2)] by simp_all
  have "0 \<le> hi" using assms(1) by (simp add: hi_def)
  then have "fl hi = PInf \<or> fl hi = Fin (flq hi)" by (rule fl_nonneg)
  moreover have "flq lo \<le> flq hi" using lo(3) by (rule flq_mono)
  ultimately show ?thesis using mn by (auto simp add: limits lo_def hi_def)
qed

lemma apply_limits_round:
  assumes "apply_limits c mx (Fin mn) = (cl, nt, cap)" "py_round cl = Inr p"
    and "mx = PInf \<or> (\<exists>v. mx = Fin v \<and> mn \<le> v)"
  shows "rhe mn \<le> p \<and> (mx = PInf \<or> (\<exists>v. mx = Fin v \<and> p \<le> rhe v))"
proof -
  consider (top) "fgt c mx" | (bot) "\<not> fgt c mx" "fless c (Fin mn)"
    | (mid) "\<not> fgt c mx" "\<not> fless c (Fin mn)" by blast
  then show ?thesis
  proof cases
    case top
    then have "cl = mx" using assms(1) by (simp add: apply_limits_def)
    then show ?thesis using assms(2,3) rhe_mono by auto
  next
    case bot
    then have "cl = Fin mn" using assms(1) by (simp add: apply_limits_def)
    then show ?thesis using assms(2,3) rhe_mono by auto
  next
    case mid
    then have cl: "cl = c" using assms(1) by (simp add: apply_limits_def)
    then obtain v where v: "c = Fin v" "p = rhe v" using assms(2) by (cases c) auto
    have "mn \<le> v" using mid(2) v(1) by simp
    moreover have "mx = PInf \<or> (\<exists>w. mx = Fin w \<and> v \<le> w)"
      using mid(1) assms(3) v(1) by (auto simp add: fgt_def)
    ultimately show ?thesis using v(2) rhe_mono by auto
  qed
qed

lemma rhe_ge_floor_of:
  assumes "(x::rat) - 49 / 80 \<le> of_int (rhe y)"
  shows "\<lfloor>x\<rfloor> \<le> rhe y"
proof -
  have "of_int \<lfloor>x\<rfloor> \<le> x" by simp
  then have "(of_int \<lfloor>x\<rfloor> :: rat) - 1 < of_int (rhe y)" using assms by linarith
  then have "(of_int (\<lfloor>x\<rfloor> - 1) :: rat) < of_int (rhe y)" by simp
  then have "\<lfloor>x\<rfloor> - 1 < rhe y" by (simp only: of_int_less_iff)
  then show ?thesis by simp
qed

text \<open>For a base price up to \<open>2^50\<close> the two float limits are the exact products, up to
  the rounding of the lower one.\<close>

lemma limits_exact:
  assumes "0 < B" "B \<le> 2 ^ 50"
  shows "fmul (Fin (of_int B)) MAX_PRICE_INCREASE = Fin (of_int (3 * B) / 2)"
    and "\<exists>mn. fmul (Fin (of_int B)) MAX_PRICE_DECREASE = Fin mn \<and>
           \<lfloor>of_int (7 * B) / (10::rat)\<rfloor> \<le> rhe mn"
proof -
  have Bq: "(of_int B :: rat) \<le> 2 ^ 50" "0 < (of_int B :: rat)"
  proof -
    have "(of_int B :: rat) \<le> of_int (2 ^ 50)" using assms(2) by (simp only: of_int_le_iff)
    then show "(of_int B :: rat) \<le> 2 ^ 50" by simp
    show "0 < (of_int B :: rat)" using assms(1) by simp
  qed
  have "\<bar>3 * B\<bar> \<le> 2 ^ 53" using assms by simp
  then have "flq (of_int (3 * B) * 2 powi (- 1)) = of_int (3 * B) * 2 powi (- 1)"
    by (intro flq_exact) simp_all
  moreover have x: "(of_int (3 * B) :: rat) * 2 powi (- 1) = of_int B * (3 / 2)"
    by (simp add: power_int_minus)
  ultimately have e0: "flq (of_int B * (3 / 2)) = of_int B * (3 / 2)" by (simp only: x)
  have e: "flq (of_int B * (3 / 2)) = of_int (3 * B) / 2" unfolding e0 by simp
  have "\<bar>(of_int B :: rat) * (3 / 2)\<bar> \<le> 2 ^ 52" using Bq by simp
  then have f0: "fl (of_int B * (3 / 2)) = Fin (flq (of_int B * (3 / 2)))" by (rule fl_finite) simp
  have "fmul (Fin (of_int B)) MAX_PRICE_INCREASE = fl (of_int B * (3 / 2))"
    unfolding limits by (simp only: fmul.simps)
  also have "\<dots> = Fin (of_int (3 * B) / 2)" unfolding f0 e ..
  finally show "fmul (Fin (of_int B)) MAX_PRICE_INCREASE = Fin (of_int (3 * B) / 2)" .
  define a where "a = (of_int B :: rat) * (3152519739159347 / 4503599627370496)"
  have apos: "0 < a" using Bq(2) by (simp add: a_def)
  have ale: "a \<le> of_int B" using Bq(2) by (simp add: a_def)
  then have alt: "a < 2 ^ 50"
  proof -
    have "a < of_int B" using Bq(2) by (simp add: a_def)
    then show ?thesis using Bq(1) by linarith
  qed
  have "\<bar>a\<bar> \<le> 2 ^ 50" using apos alt by simp
  then have f: "fl a = Fin (flq a)" by (rule fl_finite) simp
  have "a = of_int (7 * B) / 10 - of_int B / 22517998136852480" by (simp add: a_def)
  moreover have "(of_int B :: rat) / 22517998136852480 \<le> 2 ^ 50 / 22517998136852480"
    using Bq(1) by (intro divide_right_mono) simp_all
  ultimately have "of_int (7 * B) / 10 - 1 / 20 \<le> a" by simp
  moreover have "a - 1 / 16 \<le> flq a" using apos alt by (rule flq_lower)
  moreover have "flq a - 1 / 2 \<le> of_int (rhe (flq a))" by (rule rhe_lower)
  ultimately have "of_int (7 * B) / 10 - 49 / 80 \<le> (of_int (rhe (flq a)) :: rat)" by linarith
  then have "\<lfloor>of_int (7 * B) / (10::rat)\<rfloor> \<le> rhe (flq a)" by (rule rhe_ge_floor_of)
  moreover have "fmul (Fin (of_int B)) MAX_PRICE_DECREASE = Fin (flq a)"
  proof -
    have "fmul (Fin (of_int B)) MAX_PRICE_DECREASE = fl a"
      unfolding limits a_def by (simp only: fmul.simps)
    then show ?thesis unfolding f .
  qed
  ultimately show "\<exists>mn. fmul (Fin (of_int B)) MAX_PRICE_DECREASE = Fin mn \<and>
           \<lfloor>of_int (7 * B) / (10::rat)\<rfloor> \<le> rhe mn"
    by blast
qed

section \<open>When the local computations return\<close>

lemma true_div_returns:
  assumes "0 < s" "\<bar>d\<bar> \<le> 2 ^ n" "n < 1024"
  shows "\<exists>v. true_div d s = Inr (Fin v) \<and> v = flq (of_int d / of_int s)"
proof -
  have "1 \<le> s" using assms(1) by simp
  then have "(of_int 1 :: rat) \<le> of_int s" by (simp only: of_int_le_iff)
  then have s1: "(1::rat) \<le> of_int s" by simp
  have "(of_int \<bar>d\<bar> :: rat) \<le> of_int (2 ^ n)" using assms(2) by (simp only: of_int_le_iff)
  then have d: "\<bar>of_int d :: rat\<bar> \<le> 2 ^ n" by simp
  have "\<bar>(of_int d :: rat) / of_int s\<bar> = \<bar>of_int d\<bar> / of_int s" using s1 by simp
  also have "\<dots> \<le> \<bar>of_int d\<bar> / 1" using s1 by (intro divide_left_mono) simp_all
  finally have "\<bar>(of_int d :: rat) / of_int s\<bar> \<le> 2 ^ n" using d by simp
  then have "fl (of_int d / of_int s) = Fin (flq (of_int d / of_int s))"
    using assms(3) by (rule fl_finite)
  then show ?thesis using assms(1) by (simp add: true_div_def)
qed

lemma from_int_returns:
  assumes "\<bar>B\<bar> \<le> 2 ^ n" "n < 1024"
  shows "\<exists>b. from_int B = Inr (Fin b) \<and> \<bar>b\<bar> \<le> 2 ^ n \<and> b = flq (of_int B)"
proof -
  have "(of_int \<bar>B\<bar> :: rat) \<le> of_int (2 ^ n)" using assms(1) by (simp only: of_int_le_iff)
  then have d: "\<bar>of_int B :: rat\<bar> \<le> 2 ^ n" by simp
  have "fl (of_int B) = Fin (flq (of_int B))" using d assms(2) by (rule fl_finite)
  moreover have "\<bar>flq (of_int B)\<bar> \<le> 2 ^ n" using d by (rule flq_abs_le)
  ultimately show ?thesis by (simp add: from_int_def)
qed

lemma fmul_bounded:
  assumes "\<bar>a\<bar> \<le> 2 ^ n" "\<bar>c\<bar> \<le> 2" "Suc n < 1024"
  shows "\<exists>v. fmul (Fin a) (Fin c) = Fin v \<and> \<bar>v\<bar> \<le> 2 ^ Suc n \<and> v = flq (a * c)"
proof -
  have "\<bar>a * c\<bar> = \<bar>a\<bar> * \<bar>c\<bar>" by (rule abs_mult)
  also have "\<dots> \<le> 2 ^ n * 2" using assms(1,2) by (intro mult_mono) simp_all
  finally have b: "\<bar>a * c\<bar> \<le> 2 ^ Suc n" by simp
  then have "fl (a * c) = Fin (flq (a * c))" using assms(3) by (rule fl_finite)
  moreover have "\<bar>flq (a * c)\<bar> \<le> 2 ^ Suc n" using b by (rule flq_abs_le)
  ultimately show ?thesis by simp
qed

lemma small_multiplier:
  assumes "x = Fin (2589569785738035 / 2251799813685248) \<or>
           x = Fin (607985949695017 / 562949953421312) \<or>
           x = Fin (8106479329266893 / 9007199254740992) \<or> x = Fin 1"
  shows "\<exists>m. x = Fin m \<and> \<bar>m\<bar> \<le> 2"
proof -
  have b: "\<bar>2589569785738035 / 2251799813685248 :: rat\<bar> \<le> 2"
    "\<bar>607985949695017 / 562949953421312 :: rat\<bar> \<le> 2"
    "\<bar>8106479329266893 / 9007199254740992 :: rat\<bar> \<le> 2" "\<bar>1 :: rat\<bar> \<le> 2"
    by simp_all
  from assms show ?thesis
  proof (elim disjE)
    assume "x = Fin (2589569785738035 / 2251799813685248)"
    then show ?thesis using b(1) by blast
  next
    assume "x = Fin (607985949695017 / 562949953421312)"
    then show ?thesis using b(2) by blast
  next
    assume "x = Fin (8106479329266893 / 9007199254740992)"
    then show ?thesis using b(3) by blast
  next
    assume "x = Fin 1"
    then show ?thesis using b(4) by blast
  qed
qed

lemma price_tier_small: "\<exists>m. fst (price_tier r) = Fin m \<and> \<bar>m\<bar> \<le> 2"
  by (rule small_multiplier) (simp add: price_tier_def multipliers)

lemma apply_limits_finite:
  "\<exists>v nt cap. apply_limits (Fin c) (Fin mx) (Fin mn) = (Fin v, nt, cap)"
  by (auto simp add: apply_limits_def)

text \<open>For a positive supply, and demand, base price and season factor within the stated
  bounds, every float step is finite; whether a result is returned then depends only on
  whether the supply can be printed.\<close>

lemma calculate_price_bounded:
  assumes "0 < supply" "\<bar>demand\<bar> \<le> 2 ^ 1000" "\<bar>base_price\<bar> \<le> 2 ^ 1000" "\<bar>q\<bar> \<le> 2"
  shows "\<exists>res. calculate_price supply demand base_price (Fin q) =
           (case format_int supply of Inl e \<Rightarrow> Inl e | Inr u \<Rightarrow> Inr res)"
proof -
  obtain r where r: "true_div demand supply = Inr (Fin r)"
    using true_div_returns[OF assms(1,2)] by auto
  obtain m where m: "fst (price_tier (Fin r)) = Fin m" "\<bar>m\<bar> \<le> 2"
    using price_tier_small by blast
  obtain tr where pt: "price_tier (Fin r) = (Fin m, tr)" using m(1) by (cases "price_tier (Fin r)") simp
  obtain b where b: "from_int base_price = Inr (Fin b)" "\<bar>b\<bar> \<le> 2 ^ 1000"
    using from_int_returns[OF assms(3)] by auto
  obtain x where x: "fmul (Fin b) (Fin m) = Fin x" "\<bar>x\<bar> \<le> 2 ^ Suc 1000"
    using fmul_bounded[OF b(2) m(2)] by auto
  obtain c where c: "fmul (Fin x) (Fin q) = Fin c"
    using fmul_bounded[OF x(2) assms(4)] by auto
  obtain mx where mx: "fmul (Fin b) MAX_PRICE_INCREASE = Fin mx"
    using fmul_bounded[OF b(2), of "3 / 2"] by (auto simp add: limits)
  obtain mn where mn: "fmul (Fin b) MAX_PRICE_DECREASE = Fin mn"
    using fmul_bounded[OF b(2), of "3152519739159347 / 4503599627370496"] by (auto simp add: limits)
  obtain v nt cap where al: "apply_limits (Fin c) (Fin mx) (Fin mn) = (Fin v, nt, cap)"
    using apply_limits_finite by blast
  have fd: "format_int demand = Inr ()" using assms(2) by (rule format_int_ok) simp
  have fb: "format_int base_price = Inr ()" using assms(3) by (rule format_int_ok) simp
  show ?thesis
    by (cases "format_int supply")
       (simp_all add: calculate_price_pos[OF assms(1)] r pt b(1) x(1) c mx mn al fd fb
          del: fmul.simps)
qed

lemma calculate_price_returns:
  assumes "0 < supply" "supply < 10 ^ int_max_str_digits"
    and "\<bar>demand\<bar> \<le> 2 ^ 1000" "\<bar>base_price\<bar> \<le> 2 ^ 1000" "\<bar>q\<bar> \<le> 2"
  shows "\<exists>res. calculate_price supply demand base_price (Fin q) = Inr res"
proof -
  have "\<bar>supply\<bar> < 10 ^ int_max_str_digits" using assms(1,2) by simp
  then have "format_int supply = Inr ()" by (rule format_int_below)
  then show ?thesis using calculate_price_bounded[OF assms(1,3,4,5)] by simp
qed

lemma calculate_price_unprintable:
  assumes "10 ^ int_max_str_digits \<le> supply"
    and "\<bar>demand\<bar> \<le> 2 ^ 1000" "\<bar>base_price\<bar> \<le> 2 ^ 1000" "\<bar>q\<bar> \<le> 2"
  shows "calculate_price supply demand base_price (Fin q) = Inl ValueError"
proof -
  have "(0::int) < 10 ^ int_max_str_digits" by simp
  then have pos: "0 < supply" using assms(1) by linarith
  have "10 ^ int_max_str_digits \<le> \<bar>supply\<bar>" using assms(1) pos by simp
  then have "format_int supply = Inl ValueError" by (rule format_int_fail)
  then show ?thesis using calculate_price_bounded[OF pos assms(2,3,4)] by simp
qed

lemma mock_tier_small: "\<exists>m. fst (mock_tier r) = Fin m \<and> \<bar>m\<bar> \<le> 2"
  by (rule small_multiplier) (simp add: mock_tier_def fl_literals)

lemma mock_pricing_calculation_returns:
  assumes "\<bar>demand\<bar> \<le> 2 ^ 1000" "\<bar>base_price\<bar> \<le> 2 ^ 1000"
  shows "\<exists>res. mock_pricing_calculation self supply demand base_price = Inr res"
proof (cases "0 < supply \<and> 0 \<le> demand")
  case False
  then show ?thesis by (auto simp add: mock_pricing_calculation_def)
next
  case True
  obtain r where r: "true_div demand supply = Inr (Fin r)"
    using true_div_returns[OF _ assms(1)] True by auto
  obtain m where m: "fst (mock_tier (Fin r)) = Fin m" "\<bar>m\<bar> \<le> 2"
    using mock_tier_small by blast
  obtain tr where pt: "mock_tier (Fin r) = (Fin m, tr)" using m(1) by (cases "mock_tier (Fin r)") simp
  obtain b where b: "from_int base_price = Inr (Fin b)" "\<bar>b\<bar> \<le> 2 ^ 1000"
    using from_int_returns[OF assms(2)] by auto
  obtain x where x: "fmul (Fin b) (Fin m) = Fin x"
    using fmul_bounded[OF b(2) m(2)] by auto
  obtain mx where mx: "fmul (Fin b) (Fin (3 / 2)) = Fin mx"
    using fmul_bounded[OF b(2), of "3 / 2"] by auto
  obtain mn where mn: "fmul (Fin b) (Fin (3152519739159347 / 4503599627370496)) = Fin mn"
    using fmul_bounded[OF b(2), of "3152519739159347 / 4503599627370496"] by auto
  show ?thesis using True
    by (simp add: mock_pricing_calculation_def r pt b(1) x mx mn fl_literals del: fmul.simps split: prod.splits)
qed

section \<open>Integers beyond the float range\<close>

lemma from_int_overflow: "from_int (2 ^ 1024) = Inl OverflowError"
proof -
  have "(of_int (2 ^ 1024) :: rat) = 2 ^ 1024" by (simp only: of_int_power of_int_numeral)
  moreover have "flq (2 ^ 1024) = 2 ^ 1024" by (rule flq_pow2)
  ultimately have "fl (of_int (2 ^ 1024)) = PInf"
    by (simp only: fl_def float_overflow_def Let_def order_refl if_True)
  then show ?thesis by (simp only: from_int_def pyfloat.case)
qed

lemma fl_zero: "fl 0 = Fin 0"
  using fl_finite[of 0 0] by (simp add: flq_zero)

lemma true_div_overflow: "true_div (2 ^ 1024) 1 = Inl OverflowError"
proof -
  have "(of_int (2 ^ 1024) :: rat) / of_int 1 = 2 ^ 1024"
    by (simp only: of_int_power of_int_numeral of_int_1 div_by_1)
  moreover have "flq (2 ^ 1024) = 2 ^ 1024" by (rule flq_pow2)
  ultimately have "fl (of_int (2 ^ 1024) / of_int 1) = PInf"
    by (simp only: fl_def float_overflow_def Let_def order_refl if_True)
  then show ?thesis by (simp only: true_div_def pyfloat.case one_neq_zero if_False)
qed

lemma calculate_price_overflow:
  assumes "0 < supply" "true_div demand supply = Inr r" "from_int base_price = Inl e"
  shows "calculate_price supply demand base_price sf = Inl e"
  using assms(2,3) by (simp add: calculate_price_pos[OF assms(1)] split: prod.splits)

lemma calculate_price_no_quotient:
  assumes "0 < supply" "true_div demand supply = Inl e"
  shows "calculate_price supply demand base_price sf = Inl e"
  using assms(2) by (simp add: calculate_price_pos[OF assms(1)])

section \<open>Concrete evaluations\<close>

text \<open>The float operations met on the sample inputs, each checked against the definition of
  rounding.\<close>

lemma ev_1: "fl (7 / 5) = Fin (3152519739159347 / 2251799813685248)"
  using small_fl[of "7 / 5"] flq_eqI[of 6305039478318694 "- 52" "7 / 5"] by (simp add: power_int_minus)

lemma ev_2: "fl (6 / 5) = Fin (5404319552844595 / 4503599627370496)"
  using small_fl[of "6 / 5"] flq_eqI[of 5404319552844595 "- 52" "6 / 5"] by (simp add: power_int_minus)

lemma ev_3: "fl 10000 = Fin 10000"
  using small_fl[of "10000"] flq_of_int[of "10000"] by simp

lemma ev_4: "fl (379991218559385625 / 35184372088832) = Fin (10800)"
  using small_fl[of "379991218559385625 / 35184372088832"] flq_eqI[of 5937362789990400 "- 39" "379991218559385625 / 35184372088832"] by (simp add: power_int_minus)

lemma ev_5: "fl 10800 = Fin 10800"
  using small_fl[of "10800"] flq_of_int[of "10800"] by simp

lemma ev_6: "fl 15000 = Fin 15000"
  using small_fl[of "15000"] flq_of_int[of "15000"] by simp

lemma ev_7: "fl (1970324836974591875 / 281474976710656) = Fin (7000)"
  using small_fl[of "1970324836974591875 / 281474976710656"] flq_eqI[of 7696581394432000 "- 40" "1970324836974591875 / 281474976710656"] by (simp add: power_int_minus)

lemma ev_8: "rhe 10800 = 10800"
  using rhe_of_int[of "10800"] by simp

lemma ev_9: "rhe (135107988821114875 / 1125899906842624) = 120"
  using rhe_eqI[of "135107988821114875 / 1125899906842624" "120"] by simp

lemma ev_10: "rhe (15199648742375425 / 140737488355328) = 108"
  using rhe_eqI[of "15199648742375425 / 140737488355328" "108"] by simp

lemma ev_11: "fl (27 / 25) = Fin (607985949695017 / 562949953421312)"
  using small_fl[of "27 / 25"] flq_eqI[of 4863887597560136 "- 52" "27 / 25"] by (simp add: power_int_minus)

lemma ev_12: "fl (3 / 2) = Fin (3 / 2)"
  using small_fl[of "3 / 2"] flq_exact[of "6755399441055744" "- 52"] by (simp add: power_int_minus)

lemma ev_13: "fl (1618481116086271875 / 140737488355328) = Fin (11500)"
  using small_fl[of "1618481116086271875 / 140737488355328"] flq_eqI[of 6322191859712000 "- 39" "1618481116086271875 / 140737488355328"] by (simp add: power_int_minus)

lemma ev_14: "fl 11500 = Fin 11500"
  using small_fl[of "11500"] flq_of_int[of "11500"] by simp

lemma ev_15: "rhe 11500 = 11500"
  using rhe_of_int[of "11500"] by simp

lemma ev_16: "rhe 150 = 150"
  using rhe_of_int[of "150"] by simp

lemma ev_17: "rhe (64739244643450875 / 562949953421312) = 115"
  using rhe_eqI[of "64739244643450875 / 562949953421312" "115"] by simp

lemma ev_18: "fl (23 / 20) = Fin (2589569785738035 / 2251799813685248)"
  using small_fl[of "23 / 20"] flq_eqI[of 5179139571476070 "- 52" "23 / 20"] by (simp add: power_int_minus)

lemma ev_19: "fl 1 = Fin 1"
  using small_fl[of "1"] flq_of_int[of "1"] by simp

lemma ev_20: "rhe 10000 = 10000"
  using rhe_of_int[of "10000"] by simp

lemma ev_21: "rhe 100 = 100"
  using rhe_of_int[of "100"] by simp

lemma ev_22: "fl (1 / 2) = Fin (1 / 2)"
  using small_fl[of "1 / 2"] flq_exact[of "4503599627370496" "- 53"] by (simp add: power_int_minus)

lemma ev_23: "fl (5066549580791808125 / 562949953421312) = Fin (9000)"
  using small_fl[of "5066549580791808125 / 562949953421312"] flq_eqI[of 4947802324992000 "- 39" "5066549580791808125 / 562949953421312"] by (simp add: power_int_minus)

lemma ev_24: "fl 9000 = Fin 9000"
  using small_fl[of "9000"] flq_of_int[of "9000"] by simp

lemma ev_25: "rhe 9000 = 9000"
  using rhe_of_int[of "9000"] by simp

lemma ev_26: "rhe 50 = 50"
  using rhe_of_int[of "50"] by simp

lemma ev_27: "rhe (202661983231672325 / 2251799813685248) = 90"
  using rhe_eqI[of "202661983231672325 / 2251799813685248" "90"] by simp

lemma ev_28: "fl (9 / 10) = Fin (8106479329266893 / 9007199254740992)"
  using small_fl[of "9 / 10"] flq_eqI[of 8106479329266893 "- 53" "9 / 10"] by (simp add: power_int_minus)

lemma ev_29: "fl 3 = Fin 3"
  using small_fl[of "3"] flq_of_int[of "3"] by simp

lemma ev_30: "rhe 300 = 300"
  using rhe_of_int[of "300"] by simp

lemma ev_31: "fl (9063494250083122625 / 562949953421312) = Fin (8851068603596799 / 549755813888)"
  using small_fl[of "9063494250083122625 / 562949953421312"] flq_eqI[of 8851068603596799 "- 39" "9063494250083122625 / 562949953421312"] by (simp add: power_int_minus)

lemma ev_32: "rhe 15000 = 15000"
  using rhe_of_int[of "15000"] by simp

lemma ev_33: "fl (13 / 10) = Fin (5854679515581645 / 4503599627370496)"
  using small_fl[of "13 / 10"] flq_eqI[of 5854679515581645 "- 52" "13 / 10"] by (simp add: power_int_minus)

lemma ev_34: "fl 100 = Fin 100"
  using small_fl[of "100"] flq_of_int[of "100"] by simp

lemma ev_35: "fl (15199648742375425 / 140737488355328) = Fin (108)"
  using small_fl[of "15199648742375425 / 140737488355328"] flq_tieI[of 7599824371187712 "- 46" "15199648742375425 / 140737488355328"] by (simp add: power_int_minus)

lemma ev_36: "fl 108 = Fin 108"
  using small_fl[of "108"] flq_of_int[of "108"] by simp

lemma ev_37: "fl 150 = Fin 150"
  using small_fl[of "150"] flq_of_int[of "150"] by simp

lemma ev_38: "fl (78812993478983675 / 1125899906842624) = Fin (70)"
  using small_fl[of "78812993478983675 / 1125899906842624"] flq_eqI[of 4925812092436480 "- 46" "78812993478983675 / 1125899906842624"] by (simp add: power_int_minus)

lemma ev_39: "rhe 108 = 108"
  using rhe_of_int[of "108"] by simp

lemma ev_40: "rhe (146366987889541125 / 1125899906842624) = 130"
  using rhe_eqI[of "146366987889541125 / 1125899906842624" "130"] by simp

lemma ev_41: "fl (11 / 10) = Fin (2476979795053773 / 2251799813685248)"
  using small_fl[of "11 / 10"] flq_eqI[of 4953959590107546 "- 52" "11 / 10"] by (simp add: power_int_minus)

lemma ev_42: "rhe (61924494876344325 / 562949953421312) = 110"
  using rhe_eqI[of "61924494876344325 / 562949953421312" "110"] by simp

lemma ev_43: "fl (4 / 5) = Fin (3602879701896397 / 4503599627370496)"
  using small_fl[of "4 / 5"] flq_eqI[of 7205759403792794 "- 53" "4 / 5"] by (simp add: power_int_minus)

lemma ev_44: "rhe (90071992547409925 / 1125899906842624) = 80"
  using rhe_eqI[of "90071992547409925 / 1125899906842624" "80"] by simp

lemma ev_45: "fl (24319437987800679 / 9007199254740992) = Fin (3039929748475085 / 1125899906842624)"
  using small_fl[of "24319437987800679 / 9007199254740992"] flq_eqI[of 6079859496950170 "- 51" "24319437987800679 / 9007199254740992"] by (simp add: power_int_minus)

lemma ev_46: "fl (3039929748475085 / 1125899906842624) = Fin (3039929748475085 / 1125899906842624)"
  using small_fl[of "3039929748475085 / 1125899906842624"] flq_exact[of "6079859496950170" "- 51"] by (simp add: power_int_minus)

lemma ev_47: "fl (9 / 2) = Fin (9 / 2)"
  using small_fl[of "9 / 2"] flq_exact[of "5066549580791808" "- 50"] by (simp add: power_int_minus)

lemma ev_48: "fl (9457559217478041 / 4503599627370496) = Fin (1182194902184755 / 562949953421312)"
  using small_fl[of "9457559217478041 / 4503599627370496"] flq_tieI[of 4728779608739020 "- 51" "9457559217478041 / 4503599627370496"] by (simp add: power_int_minus)

lemma ev_49: "rhe (3039929748475085 / 1125899906842624) = 3"
  using rhe_eqI[of "3039929748475085 / 1125899906842624" "3"] by simp

lemma ev_50: "fl 2 = Fin 2"
  using small_fl[of "2"] flq_of_int[of "2"] by simp

lemma ev_51: "fl (3152519739159347 / 4503599627370496) = Fin (3152519739159347 / 4503599627370496)"
  using small_fl[of "3152519739159347 / 4503599627370496"] flq_exact[of "6305039478318694" "- 53"] by (simp add: power_int_minus)

lemma ev_52: "rhe (3 / 2) = 2"
  using rhe_tie_even[of "2" "3 / 2"] by simp

lemma ev_53: "fl (3152519739159347 / 2251799813685248) = Fin (3152519739159347 / 2251799813685248)"
  using small_fl[of "3152519739159347 / 2251799813685248"] flq_exact[of "6305039478318694" "- 52"] by (simp add: power_int_minus)

lemma ev_54: "rhe (3152519739159347 / 2251799813685248) = 1"
  using rhe_eqI[of "3152519739159347 / 2251799813685248" "1"] by simp

lemma ev_55: "fl (130000000000000001 / 100000000000000000) = Fin (5854679515581645 / 4503599627370496)"
  using small_fl[of "130000000000000001 / 100000000000000000"] flq_eqI[of 5854679515581645 "- 52" "130000000000000001 / 100000000000000000"] by (simp add: power_int_minus)

lemma ev_56: "\<lfloor>3039929748475085 / 1125899906842624 :: rat\<rfloor> = 2"
  by (rule floor_unique) simp_all

lemma ev_57: "\<lfloor>9 / 2 :: rat\<rfloor> = 4"
  by (rule floor_unique) simp_all

lemma ev_58: "\<lfloor>1182194902184755 / 562949953421312 :: rat\<rfloor> = 2"
  by (rule floor_unique) simp_all

lemmas ev_values = ev_1 ev_2 ev_3 ev_4 ev_5 ev_6 ev_7 ev_8 ev_9 ev_10 ev_11 ev_12 ev_13 ev_14 ev_15 ev_16 ev_17 ev_18 ev_19 ev_20 ev_21 ev_22 ev_23 ev_24 ev_25 ev_26 ev_27 ev_28 ev_29 ev_30 ev_31 ev_32 ev_33 ev_34 ev_35 ev_36 ev_37 ev_38 ev_39 ev_40 ev_41 ev_42 ev_43 ev_44 ev_45 ev_46 ev_47 ev_48 ev_49 ev_50 ev_51 ev_52 ev_53 ev_54 ev_55 ev_56 ev_57 ev_58


lemma scenario_1:
  "calculate_price 100 120 10000 (Fin 1) =
     Inr \<lparr>suggested_price = 10800, ratio = Some (fl (120 / 100)),
          multiplier = fl (108 / 100),
          reason = ''Shortage detected (ratio > 1.10)'', is_capped = False,
          calculations = \<lparr>calc_base_price = 10000, calc_supply = 100, calc_demand = 120,
            calc_season_factor = Fin 1\<rparr>\<rparr>"
  by (simp add: calc_defs ev_values fl_literals)

lemma scenario_2:
  "calculate_price 100 150 10000 (Fin 1) =
     Inr \<lparr>suggested_price = 11500, ratio = Some (Fin (3 / 2)),
          multiplier = fl (115 / 100),
          reason = ''Critical shortage (ratio > 1.30)'', is_capped = False,
          calculations = \<lparr>calc_base_price = 10000, calc_supply = 100, calc_demand = 150,
            calc_season_factor = Fin 1\<rparr>\<rparr>"
  by (simp add: calc_defs ev_values fl_literals)

lemma scenario_3:
  "calculate_price 100 100 10000 (Fin 1) =
     Inr \<lparr>suggested_price = 10000, ratio = Some (Fin 1),
          multiplier = Fin 1,
          reason = ''Balanced supply-demand (0.80-1.10)'', is_capped = False,
          calculations = \<lparr>calc_base_price = 10000, calc_supply = 100, calc_demand = 100,
            calc_season_factor = Fin 1\<rparr>\<rparr>"
  by (simp add: calc_defs ev_values fl_literals)

lemma scenario_4:
  "calculate_price 200 100 10000 (Fin 1) =
     Inr \<lparr>suggested_price = 9000, ratio = Some (Fin (1 / 2)),
          multiplier = fl (90 / 100),
          reason = ''Surplus available (ratio < 0.80)'', is_capped = False,
          calculations = \<lparr>calc_base_price = 10000, calc_supply = 200, calc_demand = 100,
            calc_season_factor = Fin 1\<rparr>\<rparr>"
  by (simp add: calc_defs ev_values fl_literals)

lemma scenario_5:
  "calculate_price 100 300 10000 (Fin 1) =
     Inr \<lparr>suggested_price = 11500, ratio = Some (Fin 3),
          multiplier = fl (115 / 100),
          reason = ''Critical shortage (ratio > 1.30)'', is_capped = False,
          calculations = \<lparr>calc_base_price = 10000, calc_supply = 100, calc_demand = 300,
            calc_season_factor = Fin 1\<rparr>\<rparr>"
  by (simp add: calc_defs ev_values fl_literals)

lemma scenario_6:
  "calculate_price 100 150 10000 (fl (14 / 10)) =
     Inr \<lparr>suggested_price = 15000, ratio = Some (Fin (3 / 2)),
          multiplier = fl (115 / 100),
          reason = ''Critical shortage (ratio > 1.30) [CAPPED at +50%]'', is_capped = True,
          calculations = \<lparr>calc_base_price = 10000, calc_supply = 100, calc_demand = 150,
            calc_season_factor = fl (14 / 10)\<rparr>\<rparr>"
  by (simp add: calc_defs ev_values fl_literals)

lemma scenario_7:
  "calculate_price 100 300 10000 (fl (14 / 10)) =
     Inr \<lparr>suggested_price = 15000, ratio = Some (Fin 3),
          multiplier = fl (115 / 100),
          reason = ''Critical shortage (ratio > 1.30) [CAPPED at +50%]'', is_capped = True,
          calculations = \<lparr>calc_base_price = 10000, calc_supply = 100, calc_demand = 300,
            calc_season_factor = fl (14 / 10)\<rparr>\<rparr>"
  by (simp add: calc_defs ev_values fl_literals)

lemma calc_10_13:
  "calculate_price 10 13 100 (Fin 1) =
     Inr \<lparr>suggested_price = 108, ratio = Some (Fin (5854679515581645 / 4503599627370496)),
          multiplier = fl (108 / 100),
          reason = ''Shortage detected (ratio > 1.10)'', is_capped = False,
          calculations = \<lparr>calc_base_price = 100, calc_supply = 10, calc_demand = 13,
            calc_season_factor = Fin 1\<rparr>\<rparr>"
  by (simp add: calc_defs ev_values fl_literals)

lemma calc_10_11:
  "calculate_price 10 11 100 (Fin 1) =
     Inr \<lparr>suggested_price = 100, ratio = Some (Fin (2476979795053773 / 2251799813685248)),
          multiplier = Fin 1,
          reason = ''Balanced supply-demand (0.80-1.10)'', is_capped = False,
          calculations = \<lparr>calc_base_price = 100, calc_supply = 10, calc_demand = 11,
            calc_season_factor = Fin 1\<rparr>\<rparr>"
  by (simp add: calc_defs ev_values fl_literals)

lemma calc_10_8:
  "calculate_price 10 8 100 (Fin 1) =
     Inr \<lparr>suggested_price = 100, ratio = Some (Fin (3602879701896397 / 4503599627370496)),
          multiplier = Fin 1,
          reason = ''Balanced supply-demand (0.80-1.10)'', is_capped = False,
          calculations = \<lparr>calc_base_price = 100, calc_supply = 10, calc_demand = 8,
            calc_season_factor = Fin 1\<rparr>\<rparr>"
  by (simp add: calc_defs ev_values fl_literals)


text \<open>The limits bound the price only after rounding: with base price 1 and season factor
  2.0 the price is capped at 1.5 and rounds to 2; with base price 2 and season factor 0.5 it
  is floored at 1.4 and rounds to 1.\<close>

lemma calc_1_1_1_2:
  "calculate_price 1 1 1 (Fin 2) =
     Inr \<lparr>suggested_price = 2, ratio = Some (Fin 1),
          multiplier = Fin 1,
          reason = ''Balanced supply-demand (0.80-1.10) [CAPPED at +50%]'', is_capped = True,
          calculations = \<lparr>calc_base_price = 1, calc_supply = 1, calc_demand = 1,
            calc_season_factor = Fin 2\<rparr>\<rparr>"
  by (simp add: calc_defs ev_values fl_literals)

lemma calc_1_1_2_half:
  "calculate_price 1 1 2 (Fin (1 / 2)) =
     Inr \<lparr>suggested_price = 1, ratio = Some (Fin 1),
          multiplier = Fin 1,
          reason = ''Balanced supply-demand (0.80-1.10) [FLOORED at -30%]'', is_capped = True,
          calculations = \<lparr>calc_base_price = 2, calc_supply = 1, calc_demand = 1,
            calc_season_factor = Fin (1 / 2)\<rparr>\<rparr>"
  by (simp add: calc_defs ev_values fl_literals)

text \<open>The comparisons read the rounded quotient: beyond \<open>10^14\<close> units of supply a
  quotient just above 1.30 can round to the float 1.30 itself, which is a shortage.\<close>

lemma calc_large_supply:
  "calculate_price 100000000000000000 130000000000000001 100 (Fin 1) =
     Inr \<lparr>suggested_price = 108, ratio = Some (Fin (5854679515581645 / 4503599627370496)),
          multiplier = fl (108 / 100),
          reason = ''Shortage detected (ratio > 1.10)'', is_capped = False,
          calculations = \<lparr>calc_base_price = 100, calc_supply = 100000000000000000, calc_demand = 130000000000000001,
            calc_season_factor = Fin 1\<rparr>\<rparr>"
  by (simp add: calc_defs ev_values fl_literals)


section \<open>The early exit and input validation\<close>

text \<open>
  C7. With \<open>supply = 0\<close> and \<open>demand = 0\<close>, \<open>calculate_price\<close> returns at once, whatever the
  base price \<open>B\<close> and the season factor: the price is \<open>B\<close>, the ratio is absent, the
  multiplier is \<open>1.0\<close>, \<open>is_capped\<close> is false and the reason is the "no supply" one.
\<close>

theorem C7_zero_supply_early_exit:
  "calculate_price 0 0 B sf =
     Inr \<lparr>suggested_price = B, ratio = None, multiplier = Fin 1,
          reason = ''No supply available - using base price'', is_capped = False,
          calculations = \<lparr>calc_base_price = B, calc_supply = 0, calc_demand = 0,
            calc_season_factor = sf\<rparr>\<rparr>"
  by (simp add: calculate_price_def fl_one)

text \<open>
  C8. \<open>validate_inputs\<close> reports invalid, with a non-empty message, exactly when
  \<open>base_price \<le> 0\<close>, or \<open>supply < 0\<close>, or \<open>demand < 0\<close>, or \<open>supply = 0\<close> with \<open>demand > 0\<close>;
  every other input is reported valid with the empty message.
\<close>

theorem C8_validate_inputs_iff:
  "(fst (validate_inputs supply demand base_price) = False \<longleftrightarrow>
      (base_price \<le> 0 \<or> supply < 0 \<or> demand < 0 \<or> (supply = 0 \<and> 0 < demand)))
   \<and> (fst (validate_inputs supply demand base_price) = False \<longleftrightarrow>
        snd (validate_inputs supply demand base_price) \<noteq> [])
   \<and> (fst (validate_inputs supply demand base_price) = True \<longleftrightarrow>
        validate_inputs supply demand base_price = (True, []))"
  by (auto simp add: validate_inputs_def)

section \<open>Tier boundaries\<close>

lemma exact_quotient:
  assumes "0 < s" "0 < b" "b * d = a * s"
  shows "(of_int d :: rat) / of_int s = of_int a / of_int b"
proof -
  have "(of_int (b * d) :: rat) = of_int (a * s)" using assms(3) by simp
  then have "(of_int d :: rat) * of_int b = of_int a * of_int s" by (simp add: mult.commute)
  then show ?thesis using assms(1,2) by (simp add: frac_eq_eq)
qed

text \<open>
  C4, as the code has it. For every \<open>supply > 0\<close> and \<open>demand \<ge> 0\<close> on which
  \<open>calculate_price\<close> returns a result, the result carries exactly one of the four tiers,
  chosen by strict comparisons of the computed float ratio \<open>demand / supply\<close> with the float
  literals, in priority order: above 1.30 the multiplier is 1.15 (critical shortage), above
  1.10 it is 1.08 (shortage), below 0.80 it is 0.90 (surplus), otherwise 1.0 (balanced). A
  ratio of exactly 1.30 is a shortage, and ratios of exactly 1.10 and exactly 0.80 are
  balanced, for every supply. As long as the supply is at most \<open>10^14\<close> the float comparisons
  coincide with the exact comparisons of the integers.
\<close>

theorem C4_tier_by_strict_comparisons:
  assumes "0 < supply" "0 \<le> demand"
    and "calculate_price supply demand base_price season_factor = Inr res"
  shows "(\<exists>r sfx. true_div demand supply = Inr r \<and>
            (multiplier res, reason res) =
              (if fgt r (fl (130 / 100)) then
                 (fl (115 / 100), ''Critical shortage (ratio > 1.30)'' @ sfx)
               else if fgt r (fl (110 / 100)) then
                 (fl (108 / 100), ''Shortage detected (ratio > 1.10)'' @ sfx)
               else if fless r (fl (80 / 100)) then
                 (fl (90 / 100), ''Surplus available (ratio < 0.80)'' @ sfx)
               else (fl 1, ''Balanced supply-demand (0.80-1.10)'' @ sfx)))
       \<and> (10 * demand = 13 * supply \<longrightarrow> multiplier res = fl (108 / 100))
       \<and> (10 * demand = 11 * supply \<longrightarrow> multiplier res = fl 1)
       \<and> (10 * demand = 8 * supply \<longrightarrow> multiplier res = fl 1)
       \<and> (supply \<le> 10 ^ 14 \<longrightarrow> multiplier res =
              (if 13 * supply < 10 * demand then fl (115 / 100)
               else if 11 * supply < 10 * demand then fl (108 / 100)
               else if 10 * demand < 8 * supply then fl (90 / 100)
               else fl 1))"
proof -
  obtain r sfx where r: "true_div demand supply = Inr r"
    and m: "multiplier res = round2 (fst (price_tier r))"
    and rs: "reason res = snd (price_tier r) @ sfx"
    using calculate_price_Inr_D[OF assms(1,3)] by blast
  have rq: "r = Fin (flq (of_int demand / of_int supply))"
    using true_div_Inr_D[OF r] by simp
  have 1: "(multiplier res, reason res) =
              (if fgt r (fl (130 / 100)) then
                 (fl (115 / 100), ''Critical shortage (ratio > 1.30)'' @ sfx)
               else if fgt r (fl (110 / 100)) then
                 (fl (108 / 100), ''Shortage detected (ratio > 1.10)'' @ sfx)
               else if fless r (fl (80 / 100)) then
                 (fl (90 / 100), ''Surplus available (ratio < 0.80)'' @ sfx)
               else (fl 1, ''Balanced supply-demand (0.80-1.10)'' @ sfx))"
    unfolding m rs price_tier_multiplier price_tier_reason by simp
  have 2: "multiplier res = fl (108 / 100)" if "10 * demand = 13 * supply"
  proof -
    have "(of_int demand :: rat) / of_int supply = of_int 13 / of_int 10"
      using assms(1) that by (intro exact_quotient) simp_all
    then have q: "(of_int demand :: rat) / of_int supply = 13 / 10" by simp
    have "r = Fin (flq (13 / 10))" unfolding rq q ..
    then show ?thesis unfolding m price_tier_multiplier
      by (simp add: fl_literals flq_13_10 fgt_def)
  qed
  have 3: "multiplier res = fl 1" if "10 * demand = 11 * supply"
  proof -
    have "(of_int demand :: rat) / of_int supply = of_int 11 / of_int 10"
      using assms(1) that by (intro exact_quotient) simp_all
    then have q: "(of_int demand :: rat) / of_int supply = 11 / 10" by simp
    have "r = Fin (flq (11 / 10))" unfolding rq q ..
    then show ?thesis unfolding m price_tier_multiplier
      by (simp add: fl_literals flq_11_10 fgt_def)
  qed
  have 4: "multiplier res = fl 1" if "10 * demand = 8 * supply"
  proof -
    have "(of_int demand :: rat) / of_int supply = of_int 8 / of_int 10"
      using assms(1) that by (intro exact_quotient) simp_all
    then have q: "(of_int demand :: rat) / of_int supply = 4 / 5" by simp
    have "r = Fin (flq (4 / 5))" unfolding rq q ..
    then show ?thesis unfolding m price_tier_multiplier
      by (simp add: fl_literals flq_4_5 fgt_def)
  qed
  have 5: "multiplier res =
              (if 13 * supply < 10 * demand then fl (115 / 100)
               else if 11 * supply < 10 * demand then fl (108 / 100)
               else if 10 * demand < 8 * supply then fl (90 / 100)
               else fl 1)" if le: "supply \<le> 10 ^ 14"
  proof -
    have a: "fgt r (fl (130 / 100)) = (13 * supply < 10 * demand)"
      using quotient_gt_130[OF assms(1) le, of demand]
      by (simp add: rq fgt_def fl_literals flq_13_10)
    have b: "fgt r (fl (110 / 100)) = (11 * supply < 10 * demand)"
      using quotient_gt_110[OF assms(1) le, of demand]
      by (simp add: rq fgt_def fl_literals flq_11_10)
    have c: "fless r (fl (80 / 100)) = (10 * demand < 8 * supply)"
      using quotient_lt_080[OF assms(1) le, of demand]
      by (simp add: rq fl_literals flq_4_5)
    show ?thesis unfolding m price_tier_multiplier a b c ..
  qed
  show ?thesis using r 1 2 3 4 5 by blast
qed

theorem C4_tier_by_strict_comparisons_witness:
  "((0::int) < 10 \<and> (0::int) \<le> 13 \<and> 10 * 13 = 13 * (10::int) \<and> (10::int) \<le> 10 ^ 14 \<and>
     (\<exists>res. calculate_price 10 13 100 (Fin 1) = Inr res \<and> multiplier res = fl (108 / 100)))
   \<and> ((0::int) < 10 \<and> (0::int) \<le> 11 \<and> 10 * 11 = 11 * (10::int) \<and>
     (\<exists>res. calculate_price 10 11 100 (Fin 1) = Inr res \<and> multiplier res = fl 1))
   \<and> ((0::int) < 10 \<and> (0::int) \<le> 8 \<and> 10 * 8 = 8 * (10::int) \<and>
     (\<exists>res. calculate_price 10 8 100 (Fin 1) = Inr res \<and> multiplier res = fl 1))"
proof -
  obtain r1 where e1: "calculate_price 10 13 100 (Fin 1) = Inr r1" using calc_10_13 by blast
  obtain r2 where e2: "calculate_price 10 11 100 (Fin 1) = Inr r2" using calc_10_11 by blast
  obtain r3 where e3: "calculate_price 10 8 100 (Fin 1) = Inr r3" using calc_10_8 by blast
  have "multiplier r1 = fl (108 / 100)"
    using C4_tier_by_strict_comparisons[OF _ _ e1] by simp
  moreover have "multiplier r2 = fl 1"
    using C4_tier_by_strict_comparisons[OF _ _ e2] by simp
  moreover have "multiplier r3 = fl 1"
    using C4_tier_by_strict_comparisons[OF _ _ e3] by simp
  ultimately show ?thesis using e1 e2 e3 by simp
qed

text \<open>
  The claim does not hold for every \<open>supply > 0\<close> and \<open>demand \<ge> 0\<close>. With supply 1 and
  demand \<open>2^1024\<close> the quotient does not fit a float and no tier is assigned: the division
  raises OverflowError. With supply \<open>10^17\<close> and demand \<open>13 * 10^16 + 1\<close> the exact ratio is
  above 1.30, but the float quotient is the float 1.30 itself and the tier is shortage
  (multiplier 1.08), not critical shortage.
\<close>

theorem C4_overflow_and_rounded_ratio_counterexample:
  "(0::int) < 1 \<and> (0::int) \<le> 2 ^ 1024 \<and>
   calculate_price 1 (2 ^ 1024) 100 (Fin 1) = Inl OverflowError \<and>
   (0::int) < 100000000000000000 \<and> (0::int) \<le> 130000000000000001 \<and>
   13 * 100000000000000000 < 10 * (130000000000000001::int) \<and>
   (\<exists>res. calculate_price 100000000000000000 130000000000000001 100 (Fin 1) = Inr res \<and>
      multiplier res = fl (108 / 100) \<and> multiplier res \<noteq> fl (115 / 100) \<and>
      reason res = ''Shortage detected (ratio > 1.10)'')"
proof -
  have 1: "calculate_price 1 (2 ^ 1024) 100 (Fin 1) = Inl OverflowError"
    using true_div_overflow by (intro calculate_price_no_quotient) simp_all
  have 2: "(0::int) \<le> 2 ^ 1024" by (rule zero_le_power) simp
  have 3: "fl (108 / 100) \<noteq> fl (115 / 100)" by (simp add: fl_literals)
  show ?thesis unfolding calc_large_supply using 1 2 3 by simp
qed

section \<open>The ratio endpoint and the price endpoint classify alike\<close>

lemma ratio_tier_label:
  "fst (ratio_tier r) =
     (if fgt r (fl (130 / 100)) then ''critical_shortage''
      else if fgt r (fl (110 / 100)) then ''shortage''
      else if fless r (fl (80 / 100)) then ''surplus''
      else ''balanced'')"
  by (simp add: ratio_tier_def thresholds fl_literals)

text \<open>
  C10. For every \<open>supply > 0\<close> and \<open>demand \<ge> 0\<close> on which \<open>calculate_price\<close> returns,
  \<open>get_supply_demand_ratio\<close> returns too, and its tier label names the multiplier branch
  that \<open>calculate_price\<close> took: \<open>critical_shortage\<close> with 1.15, \<open>shortage\<close> with 1.08,
  \<open>surplus\<close> with 0.90 and \<open>balanced\<close> with 1.0. Both read the same float ratio and compare
  it with the same thresholds.
\<close>

theorem C10_ratio_tier_matches_price_branch:
  assumes "0 < supply" "0 \<le> demand"
    and "calculate_price supply demand base_price season_factor = Inr res"
  shows "\<exists>g r. get_supply_demand_ratio supply demand = Inr g \<and>
           true_div demand supply = Inr r \<and>
           rr_ratio g = ratio res \<and>
           (tier g, multiplier res) =
             (if fgt r CRITICAL_SHORTAGE_THRESHOLD then (''critical_shortage'', fl (115 / 100))
              else if fgt r SHORTAGE_THRESHOLD then (''shortage'', fl (108 / 100))
              else if fless r SURPLUS_THRESHOLD then (''surplus'', fl (90 / 100))
              else (''balanced'', fl 1))"
proof -
  obtain r where r: "true_div demand supply = Inr r"
    and m: "multiplier res = round2 (fst (price_tier r))"
    and rt: "ratio res = Some (round2 r)"
    using calculate_price_Inr_D[OF assms(1,3)] by blast
  define g where "g = \<lparr>rr_ratio = Some (round2 r), tier = fst (ratio_tier r),
    tier_description = snd (ratio_tier r), rr_supply = Some supply, rr_demand = Some demand\<rparr>"
  have "get_supply_demand_ratio supply demand = Inr g"
    using assms(1) r by (simp add: get_supply_demand_ratio_def g_def split: prod.splits)
  moreover have "rr_ratio g = ratio res" by (simp add: g_def rt)
  moreover have "(tier g, multiplier res) =
             (if fgt r CRITICAL_SHORTAGE_THRESHOLD then (''critical_shortage'', fl (115 / 100))
              else if fgt r SHORTAGE_THRESHOLD then (''shortage'', fl (108 / 100))
              else if fless r SURPLUS_THRESHOLD then (''surplus'', fl (90 / 100))
              else (''balanced'', fl 1))"
    unfolding m price_tier_multiplier
    by (simp add: g_def ratio_tier_label CRITICAL_SHORTAGE_THRESHOLD_def SHORTAGE_THRESHOLD_def
        SURPLUS_THRESHOLD_def)
  ultimately show ?thesis using r by blast
qed

theorem C10_ratio_tier_matches_price_branch_witness:
  "(0::int) < 100 \<and> (0::int) \<le> 120 \<and>
   (\<exists>res g. calculate_price 100 120 10000 (Fin 1) = Inr res \<and>
      get_supply_demand_ratio 100 120 = Inr g \<and>
      tier g = ''shortage'' \<and> multiplier res = fl (108 / 100))"
proof -
  obtain res where e: "calculate_price 100 120 10000 (Fin 1) = Inr res"
    using scenario_1 by blast
  obtain g r where g: "get_supply_demand_ratio 100 120 = Inr g"
    and r: "true_div 120 100 = Inr r"
    and t: "(tier g, multiplier res) =
             (if fgt r CRITICAL_SHORTAGE_THRESHOLD then (''critical_shortage'', fl (115 / 100))
              else if fgt r SHORTAGE_THRESHOLD then (''shortage'', fl (108 / 100))
              else if fless r SURPLUS_THRESHOLD then (''surplus'', fl (90 / 100))
              else (''balanced'', fl 1))"
    using C10_ratio_tier_matches_price_branch[OF _ _ e] by auto
  have "r = Fin (5404319552844595 / 4503599627370496)"
    using r by (simp add: true_div_def ev_values)
  then have "tier g = ''shortage'' \<and> multiplier res = fl (108 / 100)"
    using t by (simp add: thresholds fgt_def)
  then show ?thesis using g e by simp
qed

section \<open>The final price stays within the hard limits\<close>

text \<open>
  C3. For every input with \<open>supply > 0\<close>, \<open>demand \<ge> 0\<close> and \<open>base_price > 0\<close>, and every
  season factor, a price returned by \<open>calculate_price\<close> lies between the two limits the code
  computes, \<open>min_allowed = base_price * 0.70\<close> and \<open>max_allowed = base_price * 1.50\<close>, once
  these are rounded like the price itself: it is at least \<open>round(min_allowed)\<close>, hence at
  least \<open>floor(min_allowed)\<close>, and at most \<open>round(max_allowed)\<close> (\<open>max_allowed\<close> is infinite
  for a base price near the top of the float range). For a base price up to \<open>2^50\<close> this
  reads on the exact products: the price is at least \<open>floor(7 * base_price / 10)\<close> and at
  most \<open>3 * base_price / 2\<close> rounded to the nearest integer.
\<close>

theorem C3_price_within_hard_limits:
  assumes "0 < supply" "0 \<le> demand" "0 < base_price"
    and "calculate_price supply demand base_price season_factor = Inr res"
  shows "\<exists>b mn. from_int base_price = Inr (Fin b) \<and>
           fmul (Fin b) MAX_PRICE_DECREASE = Fin mn \<and>
           \<lfloor>mn\<rfloor> \<le> suggested_price res \<and> rhe mn \<le> suggested_price res \<and>
           (fmul (Fin b) MAX_PRICE_INCREASE = PInf \<or>
            (\<exists>mx. fmul (Fin b) MAX_PRICE_INCREASE = Fin mx \<and> suggested_price res \<le> rhe mx)) \<and>
           (base_price \<le> 2 ^ 50 \<longrightarrow>
              \<lfloor>of_int (7 * base_price) / (10::rat)\<rfloor> \<le> suggested_price res \<and>
              suggested_price res \<le> rhe (of_int (3 * base_price) / 2))"
proof -
  obtain r b0 cl nt cap where b0: "from_int base_price = Inr b0"
    and al: "apply_limits (fmul (fmul b0 (fst (price_tier r))) season_factor)
        (fmul b0 MAX_PRICE_INCREASE) (fmul b0 MAX_PRICE_DECREASE) = (cl, nt, cap)"
    and pr: "py_round cl = Inr (suggested_price res)"
    using calculate_price_Inr_D[OF assms(1,4)] by blast
  obtain b where b: "b0 = Fin b" "1 \<le> b" "fl b = Fin b" "b = flq (of_int base_price)"
    using from_int_pos[OF assms(3) b0] by blast
  obtain mn where mn: "fmul (Fin b) MAX_PRICE_DECREASE = Fin mn"
    and mx: "fmul (Fin b) MAX_PRICE_INCREASE = PInf \<or>
            (\<exists>mx. fmul (Fin b) MAX_PRICE_INCREASE = Fin mx \<and> mn \<le> mx)"
    using limits_of_base[OF b(2,3)] by blast
  have bounds: "rhe mn \<le> suggested_price res \<and>
      (fmul (Fin b) MAX_PRICE_INCREASE = PInf \<or>
       (\<exists>v. fmul (Fin b) MAX_PRICE_INCREASE = Fin v \<and> suggested_price res \<le> rhe v))"
    using apply_limits_round[OF al[unfolded b(1) mn] pr mx] .
  have fl: "\<lfloor>mn\<rfloor> \<le> suggested_price res" using bounds rhe_floor[of mn] by linarith
  have ex: "\<lfloor>of_int (7 * base_price) / (10::rat)\<rfloor> \<le> suggested_price res \<and>
              suggested_price res \<le> rhe (of_int (3 * base_price) / 2)"
    if le: "base_price \<le> 2 ^ 50"
  proof -
    have "\<bar>base_price\<bar> \<le> 2 ^ 53" using assms(3) le by simp
    then have bB: "b = of_int base_price" unfolding b(4) by (rule flq_of_int)
    have 1: "fmul (Fin b) MAX_PRICE_INCREASE = Fin (of_int (3 * base_price) / 2)"
      unfolding bB using assms(3) le by (rule limits_exact(1))
    obtain mn' where 2: "fmul (Fin b) MAX_PRICE_DECREASE = Fin mn'"
      and 3: "\<lfloor>of_int (7 * base_price) / (10::rat)\<rfloor> \<le> rhe mn'"
      using limits_exact(2)[OF assms(3) le] unfolding bB by blast
    have "mn' = mn" using 2 mn by simp
    then show ?thesis using bounds 1 3 by auto
  qed
  show ?thesis using b0 b(1) mn fl bounds ex by blast
qed

theorem C3_price_within_hard_limits_witness:
  "(0::int) < 100 \<and> (0::int) \<le> 150 \<and> (0::int) < 10000 \<and> (10000::int) \<le> 2 ^ 50 \<and>
   (\<exists>res. calculate_price 100 150 10000 (fl (14 / 10)) = Inr res \<and>
      \<lfloor>of_int (7 * 10000) / (10::rat)\<rfloor> \<le> suggested_price res \<and>
      suggested_price res \<le> rhe (of_int (3 * 10000) / 2))"
proof -
  obtain res where e: "calculate_price 100 150 10000 (fl (14 / 10)) = Inr res"
    using scenario_6 by blast
  have "\<lfloor>of_int (7 * 10000) / (10::rat)\<rfloor> \<le> suggested_price res \<and>
      suggested_price res \<le> rhe (of_int (3 * 10000) / 2)"
    using C3_price_within_hard_limits[OF _ _ _ e] by auto
  then show ?thesis using e by simp
qed

section \<open>Totality of the rule engine\<close>

lemma true_div_Inl: "b \<noteq> 0 \<Longrightarrow> true_div a b = Inl e \<Longrightarrow> e = OverflowError"
  by (auto simp add: true_div_def split: pyfloat.splits)

lemma from_int_Inl: "from_int n = Inl e \<Longrightarrow> e = OverflowError"
  by (auto simp add: from_int_def split: pyfloat.splits)

lemma py_round_Inl: "py_round x = Inl e \<Longrightarrow> e = OverflowError \<or> e = ValueError"
  by (cases x) auto

lemma format_int_Inl: "format_int n = Inl e \<Longrightarrow> e = ValueError"
  by (auto simp add: format_int_def split: if_splits)

lemma calculate_price_Inl:
  assumes "calculate_price supply demand base_price sf = Inl e"
  shows "e = OverflowError \<or> e = ValueError"
proof -
  have pos: "0 < supply" using assms by (cases "0 < supply") (simp_all add: calculate_price_def)
  then have nz: "supply \<noteq> 0" by simp
  show ?thesis
    using assms true_div_Inl[OF nz, of demand] from_int_Inl[of base_price]
    unfolding calculate_price_pos[OF pos]
    by (auto split: sum.splits prod.splits dest: py_round_Inl format_int_Inl)
qed

text \<open>
  C9, as the code has it. \<open>calculate_price\<close> never divides by zero: every input with
  \<open>supply \<le> 0\<close>, negative supply and positive demand included, takes the early exit and
  returns the base price with multiplier 1.0 and \<open>is_capped\<close> false. For a positive supply,
  with demand and base price at most \<open>2^1000\<close> in absolute value and a finite season factor
  of absolute value at most 2, it returns a result exactly when the supply has at most
  4300 digits, and raises \<open>ValueError\<close> otherwise, when the audit strings are built. It is
  not total over all integers: an integer beyond the range of a float raises
  \<open>OverflowError\<close>, and one that cannot be printed raises \<open>ValueError\<close>.
\<close>

theorem C9_total_within_float_range:
  "(supply \<le> 0 \<longrightarrow>
      calculate_price supply demand base_price sf =
        Inr \<lparr>suggested_price = base_price, ratio = None, multiplier = fl 1,
             reason = ''No supply available - using base price'', is_capped = False,
             calculations = \<lparr>calc_base_price = base_price, calc_supply = supply,
               calc_demand = demand, calc_season_factor = sf\<rparr>\<rparr>)
   \<and> calculate_price supply demand base_price sf \<noteq> Inl ZeroDivisionError
   \<and> (0 < supply \<and> \<bar>demand\<bar> \<le> 2 ^ 1000 \<and> \<bar>base_price\<bar> \<le> 2 ^ 1000 \<and> \<bar>q\<bar> \<le> 2 \<longrightarrow>
        (if supply < 10 ^ int_max_str_digits
         then \<exists>res. calculate_price supply demand base_price (Fin q) = Inr res
         else calculate_price supply demand base_price (Fin q) = Inl ValueError))"
proof (intro conjI impI)
  assume "supply \<le> 0"
  then show "calculate_price supply demand base_price sf =
        Inr \<lparr>suggested_price = base_price, ratio = None, multiplier = fl 1,
             reason = ''No supply available - using base price'', is_capped = False,
             calculations = \<lparr>calc_base_price = base_price, calc_supply = supply,
               calc_demand = demand, calc_season_factor = sf\<rparr>\<rparr>"
    by (simp add: calculate_price_def)
next
  show "calculate_price supply demand base_price sf \<noteq> Inl ZeroDivisionError"
    using calculate_price_Inl[of "supply" "demand" "base_price" "sf" "ZeroDivisionError"] by auto
next
  assume a: "0 < supply \<and> \<bar>demand\<bar> \<le> 2 ^ 1000 \<and> \<bar>base_price\<bar> \<le> 2 ^ 1000 \<and> \<bar>q\<bar> \<le> 2"
  show "if supply < 10 ^ int_max_str_digits
         then \<exists>res. calculate_price supply demand base_price (Fin q) = Inr res
         else calculate_price supply demand base_price (Fin q) = Inl ValueError"
  proof (cases "supply < 10 ^ int_max_str_digits")
    case True
    then show ?thesis using a calculate_price_returns by auto
  next
    case False
    then have "10 ^ int_max_str_digits \<le> supply" by simp
    then show ?thesis using a False calculate_price_unprintable by auto
  qed
qed

lemma small_below_str_limit: "\<bar>n :: int\<bar> \<le> 2 ^ 60 \<Longrightarrow> n < 10 ^ int_max_str_digits"
proof -
  assume "\<bar>n\<bar> \<le> 2 ^ 60"
  moreover have "(2::int) ^ 60 \<le> 2 ^ 1024" by (intro power_increasing) simp_all
  ultimately show ?thesis using str_limit_gt by linarith
qed

theorem C9_total_within_float_range_witness:
  "((- 5 :: int) \<le> 0 \<and>
     calculate_price (- 5) 7 10000 (Fin 1) =
        Inr \<lparr>suggested_price = 10000, ratio = None, multiplier = fl 1,
             reason = ''No supply available - using base price'', is_capped = False,
             calculations = \<lparr>calc_base_price = 10000, calc_supply = - 5,
               calc_demand = 7, calc_season_factor = Fin 1\<rparr>\<rparr>)
   \<and> ((0::int) < 100 \<and> \<bar>120 :: int\<bar> \<le> 2 ^ 1000 \<and> \<bar>10000 :: int\<bar> \<le> 2 ^ 1000 \<and> \<bar>1 :: rat\<bar> \<le> 2 \<and>
        (100::int) < 10 ^ int_max_str_digits \<and>
        (\<exists>res. calculate_price 100 120 10000 (Fin 1) = Inr res))
   \<and> ((0::int) < 10 ^ int_max_str_digits \<and> \<bar>1 :: int\<bar> \<le> 2 ^ 1000 \<and> \<bar>100 :: int\<bar> \<le> 2 ^ 1000 \<and>
        calculate_price (10 ^ int_max_str_digits) 1 100 (Fin 1) = Inl ValueError)"
proof -
  have s: "(100::int) < 10 ^ int_max_str_digits" by (rule small_below_str_limit) simp
  show ?thesis
    using C9_total_within_float_range[of "- 5" 7 10000 "Fin 1" 1]
      C9_total_within_float_range[of 100 120 10000 "Fin 1" 1]
      C9_total_within_float_range[of "10 ^ int_max_str_digits" 1 100 "Fin 1" 1] s
    by simp
qed

theorem C9_overflow_counterexample:
  "calculate_price 1 0 (2 ^ 1024) (Fin 1) = Inl OverflowError
   \<and> calculate_price (10 ^ 4300) 1 100 (Fin 1) = Inl ValueError"
proof -
  have "true_div 0 1 = Inr (Fin 0)" by (simp add: true_div_def fl_zero)
  then have 1: "calculate_price 1 0 (2 ^ 1024) (Fin 1) = Inl OverflowError"
    using from_int_overflow by (intro calculate_price_overflow) simp_all
  have "(10::int) ^ int_max_str_digits \<le> 10 ^ int_max_str_digits" by simp
  then have "calculate_price (10 ^ int_max_str_digits) 1 100 (Fin 1) = Inl ValueError"
    by (rule calculate_price_unprintable) simp_all
  then have 2: "calculate_price (10 ^ 4300) 1 100 (Fin 1) = Inl ValueError"
    by (simp only: int_max_str_digits_def)
  show ?thesis using 1 2 by (intro conjI)
qed

section \<open>The resolver\<close>

lemma init_mock: "mode (ContractIntegration_init env MOCK) = MOCK"
  by (simp add: ContractIntegration_init_def Let_def)

lemma init_real_unavailable:
  "\<not> contracts_available (ContractIntegration_init env REAL) \<Longrightarrow>
   mode (ContractIntegration_init env REAL) = MOCK"
  by (simp add: ContractIntegration_init_def Let_def)

lemma resolver_local:
  "mode self = MOCK \<Longrightarrow>
   ContractIntegration_calculate_price self w supply demand base_price =
     mock_pricing_calculation self supply demand base_price"
  by (simp add: ContractIntegration_calculate_price_def)

lemma call_pricing_contract_returns:
  "\<exists>res. call_pricing_contract self w supply demand base_price = Inr res"
  by (cases "solidity_rpc w") (simp_all add: call_pricing_contract_def)

lemma call_stylus_pricing_contract_returns:
  "\<exists>res. call_stylus_pricing_contract self w supply demand base_price = Inr res"
  using call_pricing_contract_returns[of "self" "w" "supply" "demand" "base_price"]
  by (cases "stylus_rpc w") (auto simp add: call_stylus_pricing_contract_def)

text \<open>
  C2, as the code has it. In REAL mode with contracts available, the Stylus contract
  preferred and a Solidity address configured: when the Stylus attempt fails and the
  Solidity attempt fails too, the resolver returns the static base-price fallback, with
  \<open>final_price = base_price\<close>, the tag \<open>fallback\<close> and \<open>is_capped\<close> false. Its
  reason is \<open>CONTRACT_CALL_FAILED\<close> when both calls raise and \<open>BLOCKCHAIN_UNAVAILABLE\<close> when
  a node is not connected. The local rule engine is not consulted after a remote failure.
\<close>

theorem C2_remote_failures_fall_back_to_base_price:
  assumes "mode self = REAL" "contracts_available self" "use_stylus_pricing self"
    and "pricing_contract_address self \<noteq> []"
    and "stylus_rpc w = Raises \<or> stylus_rpc w = NotConnected"
    and "solidity_rpc w = Raises \<or> solidity_rpc w = NotConnected"
  shows "ContractIntegration_calculate_price self w supply demand base_price =
           Inr \<lparr>final_price = base_price,
                cr_reason = (if stylus_rpc w = NotConnected \<or> solidity_rpc w = NotConnected
                             then ''BLOCKCHAIN_UNAVAILABLE'' else ''CONTRACT_CALL_FAILED''),
                source = ''fallback'', cr_is_capped = Some False,
                contract_address = None, contract_type = None,
                audit_ratio = None, audit_multiplier = None,
                fallback_reason =
                  Some (if stylus_rpc w = NotConnected \<or> solidity_rpc w = NotConnected
                        then ''BLOCKCHAIN_UNAVAILABLE'' else ''CONTRACT_CALL_FAILED'')\<rparr>"
  using assms
  by (auto simp add: ContractIntegration_calculate_price_def call_stylus_pricing_contract_def
      call_pricing_contract_def fallback_to_base_price_def)

lemma init_stylus:
  "ContractIntegration_init (map_of [(''ETHANI_PRICING_STYLUS_ADDRESS'', ''0x01'')]) REAL =
     \<lparr>mode = REAL,
      pricing_contract_address = ''0xc92fd01c122821Eb2C911d16468B20b07E25abC0'',
      region_contract_address = ''0x5836cdDE4D05B0aBDB97AE556a0b9E3971a16143'',
      pricing_stylus_address = ''0x01'', regions_stylus_address = [],
      rpc_url = ''https://sepolia-rollup.arbitrum.io/rpc'',
      use_stylus_pricing = True, use_stylus_regions = False, contracts_available = True\<rparr>"
  by (simp add: ContractIntegration_init_def getenv_def Let_def)

theorem C2_remote_failures_fall_back_to_base_price_witness:
  "mode (ContractIntegration_init (map_of [(''ETHANI_PRICING_STYLUS_ADDRESS'', ''0x01'')]) REAL) = REAL
   \<and> contracts_available (ContractIntegration_init (map_of [(''ETHANI_PRICING_STYLUS_ADDRESS'', ''0x01'')]) REAL)
   \<and> use_stylus_pricing (ContractIntegration_init (map_of [(''ETHANI_PRICING_STYLUS_ADDRESS'', ''0x01'')]) REAL)
   \<and> pricing_contract_address (ContractIntegration_init (map_of [(''ETHANI_PRICING_STYLUS_ADDRESS'', ''0x01'')]) REAL) \<noteq> []
   \<and> ContractIntegration_calculate_price
        (ContractIntegration_init (map_of [(''ETHANI_PRICING_STYLUS_ADDRESS'', ''0x01'')]) REAL)
        \<lparr>stylus_rpc = Raises, solidity_rpc = NotConnected\<rparr> 100 120 10000 =
       Inr \<lparr>final_price = 10000, cr_reason = ''BLOCKCHAIN_UNAVAILABLE'',
            source = ''fallback'', cr_is_capped = Some False,
            contract_address = None, contract_type = None,
            audit_ratio = None, audit_multiplier = None,
            fallback_reason = Some ''BLOCKCHAIN_UNAVAILABLE''\<rparr>"
  using C2_remote_failures_fall_back_to_base_price[of
      "ContractIntegration_init (map_of [(''ETHANI_PRICING_STYLUS_ADDRESS'', ''0x01'')]) REAL"
      "\<lparr>stylus_rpc = Raises, solidity_rpc = NotConnected\<rparr>" 100 120 10000]
  unfolding init_stylus by simp

theorem C2_rule_engine_not_used_counterexample:
  "ContractIntegration_calculate_price
     (ContractIntegration_init (map_of [(''ETHANI_PRICING_STYLUS_ADDRESS'', ''0x01'')]) REAL)
     \<lparr>stylus_rpc = Raises, solidity_rpc = Raises\<rparr> 100 120 10000 =
     Inr \<lparr>final_price = 10000, cr_reason = ''CONTRACT_CALL_FAILED'', source = ''fallback'',
          cr_is_capped = Some False, contract_address = None, contract_type = None,
          audit_ratio = None, audit_multiplier = None,
          fallback_reason = Some ''CONTRACT_CALL_FAILED''\<rparr>
   \<and> calculate_price 100 120 10000 (Fin 1) =
     Inr \<lparr>suggested_price = 10800, ratio = Some (fl (120 / 100)),
          multiplier = fl (108 / 100),
          reason = ''Shortage detected (ratio > 1.10)'', is_capped = False,
          calculations = \<lparr>calc_base_price = 10000, calc_supply = 100, calc_demand = 120,
            calc_season_factor = Fin 1\<rparr>\<rparr>"
proof -
  have "ContractIntegration_calculate_price
     (ContractIntegration_init (map_of [(''ETHANI_PRICING_STYLUS_ADDRESS'', ''0x01'')]) REAL)
     \<lparr>stylus_rpc = Raises, solidity_rpc = Raises\<rparr> 100 120 10000 =
     Inr \<lparr>final_price = 10000, cr_reason = ''CONTRACT_CALL_FAILED'', source = ''fallback'',
          cr_is_capped = Some False, contract_address = None, contract_type = None,
          audit_ratio = None, audit_multiplier = None,
          fallback_reason = Some ''CONTRACT_CALL_FAILED''\<rparr>"
    unfolding init_stylus
    by (simp add: ContractIntegration_calculate_price_def
        call_stylus_pricing_contract_def call_pricing_contract_def fallback_to_base_price_def)
  then show ?thesis using scenario_1 by simp
qed

lemma mock_pricing_calculation_overflow:
  assumes "0 < supply" "0 \<le> demand" "true_div demand supply = Inr r"
    and "from_int base_price = Inl e"
  shows "mock_pricing_calculation self supply demand base_price = Inl e"
  using assms by (simp add: mock_pricing_calculation_def split: prod.splits)

text \<open>
  C5, as the code has it. In REAL mode with contracts available the resolver returns a
  decision for every input and every behaviour of the remote calls: each failure is
  caught and becomes a fallback decision. On the local path a validated input yields a
  decision whenever demand and base price are at most \<open>2^1000\<close>; there the computation is
  not guarded, and an integer beyond the range of a float raises \<open>OverflowError\<close>.
\<close>

theorem C5_resolver_returns_decision:
  "(mode self = REAL \<and> contracts_available self \<longrightarrow>
      (\<exists>res. ContractIntegration_calculate_price self w supply demand base_price = Inr res))
   \<and> (fst (validate_inputs supply demand base_price) \<and> demand \<le> 2 ^ 1000 \<and>
        base_price \<le> 2 ^ 1000 \<longrightarrow>
      (\<exists>res. ContractIntegration_calculate_price self w supply demand base_price = Inr res))"
proof -
  have remote: "\<exists>res. ContractIntegration_calculate_price self w supply demand base_price = Inr res"
    if "mode self = REAL \<and> contracts_available self"
    using that call_stylus_pricing_contract_returns[of "self" "w" "supply" "demand" "base_price"]
      call_pricing_contract_returns[of "self" "w" "supply" "demand" "base_price"]
    by (auto simp add: ContractIntegration_calculate_price_def)
  have loc: "\<exists>res. ContractIntegration_calculate_price self w supply demand base_price = Inr res"
    if v: "fst (validate_inputs supply demand base_price) \<and> demand \<le> 2 ^ 1000 \<and>
        base_price \<le> 2 ^ 1000"
  proof (cases "mode self = REAL \<and> contracts_available self")
    case True
    then show ?thesis by (rule remote)
  next
    case False
    have "0 \<le> demand" "0 < base_price"
      using v by (auto simp add: validate_inputs_def split: if_splits)
    then have "\<bar>demand\<bar> \<le> 2 ^ 1000" "\<bar>base_price\<bar> \<le> 2 ^ 1000" using v by simp_all
    then have "\<exists>res. mock_pricing_calculation self supply demand base_price = Inr res"
      by (rule mock_pricing_calculation_returns)
    then show ?thesis using False by (auto simp add: ContractIntegration_calculate_price_def)
  qed
  show ?thesis using remote loc by blast
qed

lemma init_default:
  "ContractIntegration_init (map_of []) REAL =
     \<lparr>mode = REAL,
      pricing_contract_address = ''0xc92fd01c122821Eb2C911d16468B20b07E25abC0'',
      region_contract_address = ''0x5836cdDE4D05B0aBDB97AE556a0b9E3971a16143'',
      pricing_stylus_address = [], regions_stylus_address = [],
      rpc_url = ''https://sepolia-rollup.arbitrum.io/rpc'',
      use_stylus_pricing = False, use_stylus_regions = False, contracts_available = True\<rparr>"
  by (simp add: ContractIntegration_init_def getenv_def Let_def)

theorem C5_resolver_returns_decision_witness:
  "(mode (ContractIntegration_init (map_of []) REAL) = REAL \<and>
    contracts_available (ContractIntegration_init (map_of []) REAL) \<and>
    (\<exists>res. ContractIntegration_calculate_price (ContractIntegration_init (map_of []) REAL)
       \<lparr>stylus_rpc = Raises, solidity_rpc = Raises\<rparr> 100 120 10000 = Inr res))
   \<and> (fst (validate_inputs 100 120 10000) \<and> (120::int) \<le> 2 ^ 1000 \<and> (10000::int) \<le> 2 ^ 1000 \<and>
    (\<exists>res. ContractIntegration_calculate_price (ContractIntegration_init (map_of []) MOCK)
       \<lparr>stylus_rpc = Raises, solidity_rpc = Raises\<rparr> 100 120 10000 = Inr res))"
  using C5_resolver_returns_decision[of "ContractIntegration_init (map_of []) REAL"
      "\<lparr>stylus_rpc = Raises, solidity_rpc = Raises\<rparr>" 100 120 10000]
    C5_resolver_returns_decision[of "ContractIntegration_init (map_of []) MOCK"
      "\<lparr>stylus_rpc = Raises, solidity_rpc = Raises\<rparr>" 100 120 10000]
  unfolding init_default by (simp add: validate_inputs_def)

theorem C5_local_overflow_counterexample:
  "validate_inputs 1 1 (2 ^ 1024) = (True, [])
   \<and> ContractIntegration_calculate_price (ContractIntegration_init (map_of []) MOCK)
        \<lparr>stylus_rpc = Raises, solidity_rpc = Raises\<rparr> 1 1 (2 ^ 1024) = Inl OverflowError"
proof -
  have "true_div 1 1 = Inr (Fin 1)" by (simp add: true_div_def fl_one)
  then have "mock_pricing_calculation (ContractIntegration_init (map_of []) MOCK) 1 1 (2 ^ 1024)
      = Inl OverflowError"
    using from_int_overflow by (intro mock_pricing_calculation_overflow) simp_all
  then have "ContractIntegration_calculate_price (ContractIntegration_init (map_of []) MOCK)
        \<lparr>stylus_rpc = Raises, solidity_rpc = Raises\<rparr> 1 1 (2 ^ 1024) = Inl OverflowError"
    by (simp only: resolver_local[OF init_mock])
  moreover have "validate_inputs 1 1 (2 ^ 1024) = (True, [])"
    by (simp add: validate_inputs_def)
  ultimately show ?thesis by (intro conjI)
qed

section \<open>The local path against the rule engine\<close>








section \<open>The scenarios of the specification\<close>

text \<open>
  C6. With base price 10000 and season factor 1.0, \<open>calculate_price\<close> returns 10800 with the
  shortage reason for (supply 100, demand 120), 11500 with the critical-shortage reason for
  (100, 150), 10000 balanced for (100, 100), 9000 surplus for (200, 100), and 11500, not
  capped, for (100, 300). With season factor 1.4 and a critical-shortage ratio the raw price
  16100 exceeds the limit 15000, and the result is 15000 with \<open>is_capped\<close> true.
\<close>

theorem C6_reference_scenarios:
  "calculate_price 100 120 10000 (Fin 1) =
     Inr \<lparr>suggested_price = 10800, ratio = Some (fl (120 / 100)),
          multiplier = fl (108 / 100),
          reason = ''Shortage detected (ratio > 1.10)'', is_capped = False,
          calculations = \<lparr>calc_base_price = 10000, calc_supply = 100, calc_demand = 120,
            calc_season_factor = Fin 1\<rparr>\<rparr>
   \<and> calculate_price 100 150 10000 (Fin 1) =
     Inr \<lparr>suggested_price = 11500, ratio = Some (Fin (3 / 2)),
          multiplier = fl (115 / 100),
          reason = ''Critical shortage (ratio > 1.30)'', is_capped = False,
          calculations = \<lparr>calc_base_price = 10000, calc_supply = 100, calc_demand = 150,
            calc_season_factor = Fin 1\<rparr>\<rparr>
   \<and> calculate_price 100 100 10000 (Fin 1) =
     Inr \<lparr>suggested_price = 10000, ratio = Some (Fin 1),
          multiplier = Fin 1,
          reason = ''Balanced supply-demand (0.80-1.10)'', is_capped = False,
          calculations = \<lparr>calc_base_price = 10000, calc_supply = 100, calc_demand = 100,
            calc_season_factor = Fin 1\<rparr>\<rparr>
   \<and> calculate_price 200 100 10000 (Fin 1) =
     Inr \<lparr>suggested_price = 9000, ratio = Some (Fin (1 / 2)),
          multiplier = fl (90 / 100),
          reason = ''Surplus available (ratio < 0.80)'', is_capped = False,
          calculations = \<lparr>calc_base_price = 10000, calc_supply = 200, calc_demand = 100,
            calc_season_factor = Fin 1\<rparr>\<rparr>
   \<and> calculate_price 100 300 10000 (Fin 1) =
     Inr \<lparr>suggested_price = 11500, ratio = Some (Fin 3),
          multiplier = fl (115 / 100),
          reason = ''Critical shortage (ratio > 1.30)'', is_capped = False,
          calculations = \<lparr>calc_base_price = 10000, calc_supply = 100, calc_demand = 300,
            calc_season_factor = Fin 1\<rparr>\<rparr>
   \<and> calculate_price 100 150 10000 (fl (14 / 10)) =
     Inr \<lparr>suggested_price = 15000, ratio = Some (Fin (3 / 2)),
          multiplier = fl (115 / 100),
          reason = ''Critical shortage (ratio > 1.30) [CAPPED at +50%]'', is_capped = True,
          calculations = \<lparr>calc_base_price = 10000, calc_supply = 100, calc_demand = 150,
            calc_season_factor = fl (14 / 10)\<rparr>\<rparr>
   \<and> calculate_price 100 300 10000 (fl (14 / 10)) =
     Inr \<lparr>suggested_price = 15000, ratio = Some (Fin 3),
          multiplier = fl (115 / 100),
          reason = ''Critical shortage (ratio > 1.30) [CAPPED at +50%]'', is_capped = True,
          calculations = \<lparr>calc_base_price = 10000, calc_supply = 100, calc_demand = 300,
            calc_season_factor = fl (14 / 10)\<rparr>\<rparr>"
  using scenario_1 scenario_2 scenario_3 scenario_4 scenario_5 scenario_6 scenario_7
  by (intro conjI)

end
